theory Spec2Isabelle
  imports Complex_Main "HOL-Library.Log_Nat"
begin

section \<open>Python values\<close>

text \<open>
  A Python \<^verbatim>\<open>dict\<close> with string keys is an association list in insertion order; the keys
  of a dictionary are distinct, so its \<^verbatim>\<open>len\<close> is the length of the list and a lookup
  finds the one entry of a key. \<^verbatim>\<open>d.get(k, default)\<close> is \<open>dict_get\<close>, and \<open>map_of d k\<close>
  tells whether the key is there at all.
\<close>

type_synonym 'v dict = "(string \<times> 'v) list"

definition dict_get :: "'v dict \<Rightarrow> string \<Rightarrow> 'v \<Rightarrow> 'v" where
  "dict_get d k dflt = (case map_of d k of None \<Rightarrow> dflt | Some v \<Rightarrow> v)"

datatype pyerror = KeyError | OverflowError | ZeroDivisionError

subsection \<open>Floats\<close>

text \<open>
  A Python \<^verbatim>\<open>float\<close> is an IEEE 754 binary64 number: a finite value, an infinity or
  NaN. A finite value is kept as the rational it denotes (the two zeros are one value;
  nothing here divides by a float zero). Every float operation computes the exact result
  and rounds it to the nearest binary64 value, ties to the even significand:
  \<open>floor_log2 x\<close> is the binary exponent of a positive \<open>x\<close>, \<open>quantum x\<close> the exponent of
  the last place of the 53-bit significand (not below that of the subnormal numbers),
  and a rounded value of magnitude \<open>2 ^ 1024\<close> or more is an infinity.
\<close>

datatype pyfloat = Fin rat | PInf | NInf | NaN

definition round_half_even :: "rat \<Rightarrow> int" where
  "round_half_even y =
     (let f = \<lfloor>y\<rfloor>; d = y - of_int f in
      if d < 1 / 2 then f else if 1 / 2 < d then f + 1 else if even f then f else f + 1)"

definition floor_log2 :: "rat \<Rightarrow> int" where
  "floor_log2 x =
     (let (a, b) = quotient_of x; n = bitlen a - bitlen b in
      if 2 powi n \<le> x then n else n - 1)"

definition quantum :: "rat \<Rightarrow> int" where
  "quantum x = max (floor_log2 \<bar>x\<bar> - 52) (- 1074)"

definition round_double :: "rat \<Rightarrow> pyfloat" where
  "round_double x =
     (if x = 0 then Fin 0
      else
        let e = quantum x;
            r = of_int (round_half_even (x / 2 powi e)) * 2 powi e
        in if 2 ^ 1024 \<le> r then PInf else if r \<le> - (2 ^ 1024) then NInf else Fin r)"

text \<open>The value of a float literal such as \<^verbatim>\<open>0.35\<close>.\<close>

definition py_float :: "rat \<Rightarrow> pyfloat" where
  "py_float q = round_double q"

fun fadd :: "pyfloat \<Rightarrow> pyfloat \<Rightarrow> pyfloat" where
  "fadd (Fin a) (Fin b) = round_double (a + b)"
| "fadd NaN _ = NaN"
| "fadd _ NaN = NaN"
| "fadd PInf NInf = NaN"
| "fadd NInf PInf = NaN"
| "fadd PInf _ = PInf"
| "fadd _ PInf = PInf"
| "fadd NInf _ = NInf"
| "fadd _ NInf = NInf"

fun fmul :: "pyfloat \<Rightarrow> pyfloat \<Rightarrow> pyfloat" where
  "fmul (Fin a) (Fin b) = round_double (a * b)"
| "fmul NaN _ = NaN"
| "fmul _ NaN = NaN"
| "fmul (Fin a) PInf = (if a = 0 then NaN else if 0 < a then PInf else NInf)"
| "fmul (Fin a) NInf = (if a = 0 then NaN else if 0 < a then NInf else PInf)"
| "fmul PInf (Fin b) = (if b = 0 then NaN else if 0 < b then PInf else NInf)"
| "fmul NInf (Fin b) = (if b = 0 then NaN else if 0 < b then NInf else PInf)"
| "fmul PInf PInf = PInf"
| "fmul NInf NInf = PInf"
| "fmul PInf NInf = NInf"
| "fmul NInf PInf = NInf"

text \<open>Float division raises \<^verbatim>\<open>ZeroDivisionError\<close> on a zero divisor and overflows to infinity.\<close>

fun fdiv :: "pyfloat \<Rightarrow> pyfloat \<Rightarrow> pyerror + pyfloat" where
  "fdiv x (Fin b) =
     (if b = 0 then Inl ZeroDivisionError
      else case x of
             Fin a \<Rightarrow> Inr (round_double (a / b))
           | PInf \<Rightarrow> Inr (if 0 < b then PInf else NInf)
           | NInf \<Rightarrow> Inr (if 0 < b then NInf else PInf)
           | NaN \<Rightarrow> Inr NaN)"
| "fdiv NaN _ = Inr NaN"
| "fdiv _ NaN = Inr NaN"
| "fdiv (Fin a) _ = Inr (Fin 0)"
| "fdiv _ _ = Inr NaN"

subsection \<open>Numbers\<close>

text \<open>
  A number is an \<^verbatim>\<open>int\<close> (unbounded) or a \<^verbatim>\<open>float\<close>. Integer arithmetic is exact. An
  integer that meets a float is converted first, correctly rounded, with
  \<^verbatim>\<open>OverflowError\<close> when it is too large; the true division of two integers is their
  correctly rounded quotient, with \<^verbatim>\<open>OverflowError\<close> when that is too large.
\<close>

datatype pynum = PyInt int | PyFloat pyfloat

definition float_of_int :: "int \<Rightarrow> pyerror + pyfloat" where
  "float_of_int n =
     (case round_double (of_int n) of Fin r \<Rightarrow> Inr (Fin r) | _ \<Rightarrow> Inl OverflowError)"

fun py_add :: "pynum \<Rightarrow> pynum \<Rightarrow> pyerror + pynum" where
  "py_add (PyInt a) (PyInt b) = Inr (PyInt (a + b))"
| "py_add (PyInt a) (PyFloat g) =
     (case float_of_int a of Inl e \<Rightarrow> Inl e | Inr f \<Rightarrow> Inr (PyFloat (fadd f g)))"
| "py_add (PyFloat f) (PyInt b) =
     (case float_of_int b of Inl e \<Rightarrow> Inl e | Inr g \<Rightarrow> Inr (PyFloat (fadd f g)))"
| "py_add (PyFloat f) (PyFloat g) = Inr (PyFloat (fadd f g))"

fun py_mul :: "pynum \<Rightarrow> pynum \<Rightarrow> pyerror + pynum" where
  "py_mul (PyInt a) (PyInt b) = Inr (PyInt (a * b))"
| "py_mul (PyInt a) (PyFloat g) =
     (case float_of_int a of Inl e \<Rightarrow> Inl e | Inr f \<Rightarrow> Inr (PyFloat (fmul f g)))"
| "py_mul (PyFloat f) (PyInt b) =
     (case float_of_int b of Inl e \<Rightarrow> Inl e | Inr g \<Rightarrow> Inr (PyFloat (fmul f g)))"
| "py_mul (PyFloat f) (PyFloat g) = Inr (PyFloat (fmul f g))"

fun py_truediv :: "pynum \<Rightarrow> pynum \<Rightarrow> pyerror + pynum" where
  "py_truediv (PyInt a) (PyInt b) =
     (if b = 0 then Inl ZeroDivisionError
      else case round_double (of_int a / of_int b) of
             Fin r \<Rightarrow> Inr (PyFloat (Fin r))
           | _ \<Rightarrow> Inl OverflowError)"
| "py_truediv (PyInt a) (PyFloat g) =
     (case float_of_int a of
        Inl e \<Rightarrow> Inl e
      | Inr f \<Rightarrow> (case fdiv f g of Inl e \<Rightarrow> Inl e | Inr q \<Rightarrow> Inr (PyFloat q)))"
| "py_truediv (PyFloat f) (PyInt b) =
     (case float_of_int b of
        Inl e \<Rightarrow> Inl e
      | Inr g \<Rightarrow> (case fdiv f g of Inl e \<Rightarrow> Inl e | Inr q \<Rightarrow> Inr (PyFloat q)))"
| "py_truediv (PyFloat f) (PyFloat g) =
     (case fdiv f g of Inl e \<Rightarrow> Inl e | Inr q \<Rightarrow> Inr (PyFloat q))"

text \<open>
  The built-in \<^verbatim>\<open>sum\<close>: the items are added from left to right, starting from the
  integer 0. (For floats this is the plain sequence of rounded additions. CPython 3.12
  and later carry a correction term along, which can change the last place of a float
  sum; the float sum of the sample input below is the same either way.)
\<close>

fun py_sum :: "pynum \<Rightarrow> pynum list \<Rightarrow> pyerror + pynum" where
  "py_sum acc [] = Inr acc"
| "py_sum acc (x # xs) =
     (case py_add acc x of Inl e \<Rightarrow> Inl e | Inr acc' \<Rightarrow> py_sum acc' xs)"

text \<open>
  Comparison of a number with an integer constant, which Python decides on the exact
  values; every comparison with NaN is false.
\<close>

fun py_gt_int :: "pynum \<Rightarrow> int \<Rightarrow> bool" where
  "py_gt_int (PyInt a) k = (k < a)"
| "py_gt_int (PyFloat (Fin r)) k = (of_int k < r)"
| "py_gt_int (PyFloat PInf) k = True"
| "py_gt_int (PyFloat NInf) k = False"
| "py_gt_int (PyFloat NaN) k = False"

fun py_lt_int :: "pynum \<Rightarrow> int \<Rightarrow> bool" where
  "py_lt_int (PyInt a) k = (a < k)"
| "py_lt_int (PyFloat (Fin r)) k = (r < of_int k)"
| "py_lt_int (PyFloat PInf) k = False"
| "py_lt_int (PyFloat NInf) k = True"
| "py_lt_int (PyFloat NaN) k = False"

section \<open>database\_monitor.py: turnover statistics\<close>

type_synonym turnover_stats = "pynum dict"

text \<open>
  The body of the \<^verbatim>\<open>for deal_hash, appearances in deal_timeline.items()\<close> loop of
  \<^verbatim>\<open>_calculate_turnover_stats\<close>. The loop state is the list \<^verbatim>\<open>deal_lifespans\<close> and the
  counter \<^verbatim>\<open>disappeared_deals\<close>. An item with fewer than two appearances is skipped by
  \<^verbatim>\<open>continue\<close> before anything else is done with it. The check interval is a number: the
  signature says \<^verbatim>\<open>float\<close>, the callers pass the \<^verbatim>\<open>int\<close> stored with the session. The
  product with the interval can raise, and then the function raises.
\<close>

fun timeline_loop ::
  "int list dict \<Rightarrow> int \<Rightarrow> pynum \<Rightarrow> pynum list \<Rightarrow> nat \<Rightarrow> pyerror + (pynum list \<times> nat)" where
  "timeline_loop [] num_snapshots interval_minutes deal_lifespans disappeared_deals =
     Inr (deal_lifespans, disappeared_deals)"
| "timeline_loop ((deal_hash, apps) # rest) num_snapshots interval_minutes
       deal_lifespans disappeared_deals =
     (let appearances = sort apps in
      if length appearances < 2 then
        timeline_loop rest num_snapshots interval_minutes deal_lifespans disappeared_deals
      else
        let first_seen = hd appearances;
            last_seen = last appearances;
            disappeared_deals' =
              (if last_seen < num_snapshots then disappeared_deals + 1 else disappeared_deals);
            lifespan_checks = last_seen - first_seen + 1
        in case py_mul (PyInt lifespan_checks) interval_minutes of
             Inl e \<Rightarrow> Inl e
           | Inr lifespan_minutes \<Rightarrow>
               timeline_loop rest num_snapshots interval_minutes
                 (deal_lifespans @ [lifespan_minutes]) disappeared_deals')"

text \<open>
  \<^verbatim>\<open>_calculate_turnover_stats(deal_timeline, num_snapshots, interval_minutes, source_name)\<close>.
  The source name is only written to the log. With no deal at all the result is the
  dictionary \<^verbatim>\<open>{"total_deals_seen": 0}\<close>, which has no other key.
\<close>

definition calculate_turnover_stats ::
  "int list dict \<Rightarrow> int \<Rightarrow> pynum \<Rightarrow> string \<Rightarrow> pyerror + turnover_stats" where
  "calculate_turnover_stats deal_timeline num_snapshots interval_minutes source_name =
     (let total_deals = length deal_timeline in
      if total_deals = 0 then Inr [(''total_deals_seen'', PyInt 0)]
      else
        case timeline_loop deal_timeline num_snapshots interval_minutes [] 0 of
          Inl e \<Rightarrow> Inl e
        | Inr (deal_lifespans, disappeared_deals) \<Rightarrow>
            (case (if deal_lifespans \<noteq> [] then
                     (case py_sum (PyInt 0) deal_lifespans of
                        Inl e \<Rightarrow> Inl e
                      | Inr tot \<Rightarrow> py_truediv tot (PyInt (int (length deal_lifespans))))
                   else Inr (PyInt 0)) of
               Inl e \<Rightarrow> Inl e
             | Inr avg_lifetime_minutes \<Rightarrow>
                 (case (if total_deals > 0 then
                          py_truediv (PyInt (int disappeared_deals)) (PyInt (int total_deals))
                        else Inr (PyInt 0)) of
                    Inl e \<Rightarrow> Inl e
                  | Inr turnover_rate \<Rightarrow>
                      Inr [(''total_deals_seen'', PyInt (int total_deals)),
                           (''disappeared_deals'', PyInt (int disappeared_deals)),
                           (''turnover_rate'', turnover_rate),
                           (''avg_lifetime_minutes'', avg_lifetime_minutes)])))"

section \<open>adaptive\_scraper.py: the frequency controller\<close>

text \<open>
  The state of an \<^verbatim>\<open>AdaptiveScraper\<close> that the frequency methods read or write. Frequencies
  are minutes between scrapes. Timestamps (\<^verbatim>\<open>datetime.now()\<close>) are readings of a clock,
  given as natural numbers; the readings taken during one call are the same reading.

  The adjustment history is what \<^verbatim>\<open>_load_adjustment_history\<close> got from \<^verbatim>\<open>json.load\<close> of
  \<^verbatim>\<open>frequency_adjustments.json\<close>, or its default when there is no such file. A file of
  another shape is taken as it is, so each entry may be missing: \<open>None\<close> is a key that is
  not there (\<^verbatim>\<open>KeyError\<close> when it is used; a value of the wrong type raises as well, with
  the same effect).
\<close>

record adjustment_metrics =
  gcx_turnover :: pynum
  cardcash_turnover :: pynum
  avg_lifetime_minutes :: pynum
  metrics_scrape_count :: int

record adjustment =
  timestamp :: nat
  old_frequency :: int
  new_frequency :: int
  reason :: string
  confidence :: string
  metrics :: adjustment_metrics

record history_stats =
  total_adjustments :: "int option"
  increases :: "int option"
  decreases :: "int option"
  last_updated :: "nat option"

record history =
  adjustments :: "adjustment list option"
  stats :: "history_stats option"

record scraper =
  current_frequency :: int
  min_frequency :: int
  max_frequency :: int
  adjustment_threshold :: int
  scrape_count :: int
  last_adjustment_time :: "nat option"
  adjustment_history :: history

text \<open>
  The turnover data handed to \<^verbatim>\<open>adjust_frequency\<close>: a dictionary whose entries
  \<^verbatim>\<open>gcx_stats\<close> and \<^verbatim>\<open>cardcash_stats\<close> are statistics dictionaries. Its other entries
  (\<^verbatim>\<open>session_id\<close>, \<^verbatim>\<open>recommendations\<close>) are never read; they only make the dictionary
  non-empty.
\<close>

type_synonym turnover_data = "turnover_stats dict"

text \<open>
  What the method gets from outside: the clock, the outcome of opening and writing the
  history file, and the outcome of the monitoring session that is run when no turnover
  data is passed (\<open>None\<close>: the session raised, or returned \<^verbatim>\<open>None\<close>, and then the
  method leaves through one of its two exception handlers before any assignment).
\<close>

datatype save_outcome = OpenFailed | DumpFailed | Saved

record world =
  now :: nat
  save :: save_outcome
  analysis :: "turnover_data option"

text \<open>
  A method that mutates the scraper either returns or raises; in both cases the scraper
  is left as the method had made it by then.
\<close>

datatype outcome = Returned scraper | Raised pyerror scraper

fun state_of :: "outcome \<Rightarrow> scraper" where
  "state_of (Returned s) = s"
| "state_of (Raised e s) = s"

text \<open>
  Reading a counter of the history, \<^verbatim>\<open>self.adjustment_history["stats"]["increases"]\<close>;
  \<open>None\<close> when it is not there.
\<close>

definition counter :: "(history_stats \<Rightarrow> int option) \<Rightarrow> scraper \<Rightarrow> int option" where
  "counter field s = (case stats (adjustment_history s) of None \<Rightarrow> None | Some st \<Rightarrow> field st)"

text \<open>
  \<^verbatim>\<open>_save_adjustment_history\<close>: the stamp is written once the file is open, and every
  exception is caught and logged.
\<close>

definition save_adjustment_history :: "scraper \<Rightarrow> world \<Rightarrow> scraper" where
  "save_adjustment_history s w =
     (case save w of
        OpenFailed \<Rightarrow> s
      | _ \<Rightarrow>
         (case stats (adjustment_history s) of
            None \<Rightarrow> s
          | Some st \<Rightarrow>
              s\<lparr>adjustment_history :=
                  (adjustment_history s)\<lparr>stats := Some (st\<lparr>last_updated := Some (now w)\<rparr>)\<rparr>\<rparr>))"

text \<open>\<^verbatim>\<open>set_frequency_bounds(min_minutes, max_minutes)\<close>.\<close>

definition set_frequency_bounds :: "scraper \<Rightarrow> int \<Rightarrow> int \<Rightarrow> scraper" where
  "set_frequency_bounds s min_minutes max_minutes =
     s\<lparr>min_frequency := max 5 min_minutes, max_frequency := min 360 max_minutes\<rparr>"

text \<open>
  \<^verbatim>\<open>_log_adjustment(old_freq, new_freq, reason, confidence, metrics)\<close>. The entry is built
  first (its average lifetime is computed with the default 0), then appended, then the
  counters are incremented one after the other, then the history is saved. Each step can
  raise and leaves what the steps before it did.
\<close>

definition log_adjustment ::
  "scraper \<Rightarrow> int \<Rightarrow> int \<Rightarrow> string \<Rightarrow> string \<Rightarrow> turnover_data \<Rightarrow> world \<Rightarrow> outcome" where
  "log_adjustment s old_freq new_freq rsn conf mtr w =
     (case py_add (dict_get (dict_get mtr ''gcx_stats'' []) ''avg_lifetime_minutes'' (PyInt 0))
                  (dict_get (dict_get mtr ''cardcash_stats'' []) ''avg_lifetime_minutes'' (PyInt 0)) of
        Inl e \<Rightarrow> Raised e s
      | Inr tot \<Rightarrow>
         (case py_truediv tot (PyInt 2) of
            Inl e \<Rightarrow> Raised e s
          | Inr avg \<Rightarrow>
             (let adj = \<lparr>timestamp = now w,
                         old_frequency = old_freq,
                         new_frequency = new_freq,
                         reason = rsn,
                         confidence = conf,
                         metrics = \<lparr>
                           gcx_turnover =
                             dict_get (dict_get mtr ''gcx_stats'' []) ''turnover_rate'' (PyInt 0),
                           cardcash_turnover =
                             dict_get (dict_get mtr ''cardcash_stats'' []) ''turnover_rate'' (PyInt 0),
                           avg_lifetime_minutes = avg,
                           metrics_scrape_count = scrape_count s\<rparr>\<rparr>;
                  h = adjustment_history s
              in case adjustments h of
                   None \<Rightarrow> Raised KeyError s
                 | Some adjs \<Rightarrow>
                    (let h1 = h\<lparr>adjustments := Some (adjs @ [adj])\<rparr> in
                     case stats h1 of
                       None \<Rightarrow> Raised KeyError (s\<lparr>adjustment_history := h1\<rparr>)
                     | Some st \<Rightarrow>
                        (case total_adjustments st of
                           None \<Rightarrow> Raised KeyError (s\<lparr>adjustment_history := h1\<rparr>)
                         | Some t \<Rightarrow>
                            (let st1 = st\<lparr>total_adjustments := Some (t + 1)\<rparr> in
                             if new_freq < old_freq then
                               (case increases st1 of
                                  None \<Rightarrow>
                                    Raised KeyError
                                      (s\<lparr>adjustment_history := h1\<lparr>stats := Some st1\<rparr>\<rparr>)
                                | Some i \<Rightarrow>
                                    Returned (save_adjustment_history
                                      (s\<lparr>adjustment_history :=
                                          h1\<lparr>stats := Some (st1\<lparr>increases := Some (i + 1)\<rparr>)\<rparr>\<rparr>) w))
                             else
                               (case decreases st1 of
                                  None \<Rightarrow>
                                    Raised KeyError
                                      (s\<lparr>adjustment_history := h1\<lparr>stats := Some st1\<rparr>\<rparr>)
                                | Some d \<Rightarrow>
                                    Returned (save_adjustment_history
                                      (s\<lparr>adjustment_history :=
                                          h1\<lparr>stats := Some (st1\<lparr>decreases := Some (d + 1)\<rparr>)\<rparr>\<rparr>) w))))))))"

text \<open>
  The two averages \<^verbatim>\<open>adjust_frequency\<close> extracts from the turnover data, with the
  defaults of its \<^verbatim>\<open>.get\<close> calls.
\<close>

definition avg_turnover :: "turnover_data \<Rightarrow> pyerror + pynum" where
  "avg_turnover td =
     (case py_add (dict_get (dict_get td ''gcx_stats'' []) ''turnover_rate'' (PyInt 0))
                  (dict_get (dict_get td ''cardcash_stats'' []) ''turnover_rate'' (PyInt 0)) of
        Inl e \<Rightarrow> Inl e
      | Inr tot \<Rightarrow> py_truediv tot (PyInt 2))"

definition avg_lifetime :: "turnover_data \<Rightarrow> pyerror + pynum" where
  "avg_lifetime td =
     (case py_add (dict_get (dict_get td ''gcx_stats'' []) ''avg_lifetime_minutes'' (PyInt 120))
                  (dict_get (dict_get td ''cardcash_stats'' []) ''avg_lifetime_minutes'' (PyInt 120)) of
        Inl e \<Rightarrow> Inl e
      | Inr tot \<Rightarrow> py_truediv tot (PyInt 2))"

text \<open>
  The \<^verbatim>\<open>if\<close>/\<^verbatim>\<open>elif\<close> chain of \<^verbatim>\<open>adjust_frequency\<close>: the frequency it assigns, the
  confidence and the reason, in the order of the source.
\<close>

definition apply_rules :: "scraper \<Rightarrow> pynum \<Rightarrow> pynum \<Rightarrow> int \<times> string \<times> string" where
  "apply_rules s avg_t avg_l =
     (if py_gt_int avg_t 50 then
        (max (min_frequency s) (min 15 (current_frequency s - 15)),
         ''high'', ''very high turnover rate'')
      else if py_gt_int avg_t 30 then
        (max (min_frequency s) (min 30 (current_frequency s - 10)),
         ''high'', ''high turnover rate'')
      else if py_lt_int avg_t 5 \<and> py_gt_int avg_l 180 then
        (min (max_frequency s) (max 120 (current_frequency s + 20)),
         ''high'', ''very low turnover and long deal lifetime'')
      else if py_lt_int avg_t 10 then
        (min (max_frequency s) (current_frequency s + 10),
         ''medium'', ''low turnover rate'')
      else if py_lt_int avg_l 30 then
        (max (min_frequency s) (current_frequency s - 10),
         ''high'', ''very short deal lifetime'')
      else
        (current_frequency s, ''low'', ''metrics within normal range''))"

text \<open>
  The \<^verbatim>\<open>try\<close> block of \<^verbatim>\<open>adjust_frequency\<close>, entered once the turnover data is known:
  the averages, the rules, the final clamp, the log entry when the frequency changed, and
  the time of the adjustment. Its \<^verbatim>\<open>except Exception\<close> branch only logs: an exception
  from the averages leaves the scraper untouched, and one from \<^verbatim>\<open>_log_adjustment\<close>
  leaves the new frequency and what had been logged by then, without the time of the
  adjustment.
\<close>

definition adjust_with :: "scraper \<Rightarrow> turnover_data \<Rightarrow> world \<Rightarrow> scraper" where
  "adjust_with s td w =
     (case avg_turnover td of
        Inl e \<Rightarrow> s
      | Inr avg_t \<Rightarrow>
         (case avg_lifetime td of
            Inl e \<Rightarrow> s
          | Inr avg_l \<Rightarrow>
             (let old_frequency = current_frequency s;
                  (f, conf, rsn) = apply_rules s avg_t avg_l;
                  f' = max (min_frequency s) (min (max_frequency s) f);
                  s1 = s\<lparr>current_frequency := f'\<rparr>
              in if old_frequency \<noteq> f' then
                   (case log_adjustment s1 old_frequency f' rsn conf td w of
                      Raised e s2 \<Rightarrow> s2
                    | Returned s2 \<Rightarrow> s2\<lparr>last_adjustment_time := Some (now w)\<rparr>)
                 else s1\<lparr>last_adjustment_time := Some (now w)\<rparr>)))"

text \<open>
  The turnover data the method works on: the argument when it is a non-empty dictionary
  (\<^verbatim>\<open>if not turnover_data\<close> is true for \<^verbatim>\<open>None\<close> and for \<^verbatim>\<open>{}\<close>), the result of the
  monitoring session otherwise.
\<close>

definition obtain_turnover_data :: "turnover_data option \<Rightarrow> world \<Rightarrow> turnover_data option" where
  "obtain_turnover_data turnover_data w =
     (case turnover_data of
        None \<Rightarrow> analysis w
      | Some [] \<Rightarrow> analysis w
      | Some td \<Rightarrow> Some td)"

text \<open>\<^verbatim>\<open>adjust_frequency(turnover_data=None)\<close>.\<close>

definition adjust_frequency :: "scraper \<Rightarrow> turnover_data option \<Rightarrow> world \<Rightarrow> scraper" where
  "adjust_frequency s turnover_data w =
     (if scrape_count s < adjustment_threshold s then s
      else case obtain_turnover_data turnover_data w of
             None \<Rightarrow> s
           | Some td \<Rightarrow> adjust_with s td w)"

text \<open>
  The statistics part of what \<^verbatim>\<open>analyze_session\<close> returns: both timelines go through
  \<^verbatim>\<open>_calculate_turnover_stats\<close> with the number of snapshots and the check interval of
  the session, and the results are stored under \<^verbatim>\<open>gcx_stats\<close> and \<^verbatim>\<open>cardcash_stats\<close>.
\<close>

definition session_analysis ::
  "int list dict \<Rightarrow> int list dict \<Rightarrow> int \<Rightarrow> pynum \<Rightarrow> pyerror + turnover_data" where
  "session_analysis gcx_deals_timeline cardcash_deals_timeline num_snapshots interval_minutes =
     (case calculate_turnover_stats gcx_deals_timeline num_snapshots interval_minutes ''raise'' of
        Inl e \<Rightarrow> Inl e
      | Inr gcx_stats \<Rightarrow>
         (case calculate_turnover_stats cardcash_deals_timeline num_snapshots interval_minutes
                 ''cardcash'' of
            Inl e \<Rightarrow> Inl e
          | Inr cardcash_stats \<Rightarrow>
              Inr [(''gcx_stats'', gcx_stats), (''cardcash_stats'', cardcash_stats)]))"

text \<open>
  The values a turnover rate can have when it is read, with the default 0, from statistics
  that \<^verbatim>\<open>_calculate_turnover_stats\<close> returned: the integer 0 or a float from 0 to 1.
\<close>

definition unit_rate :: "pynum \<Rightarrow> bool" where
  "unit_rate x =
     (case x of
        PyInt a \<Rightarrow> a = 0
      | PyFloat (Fin r) \<Rightarrow> 0 \<le> r \<and> r \<le> 1
      | _ \<Rightarrow> False)"

section \<open>Sample inputs\<close>

text \<open>
  A scraper as \<^verbatim>\<open>__init__\<close> leaves it with no history file (interval 60, bounds 10 and
  240, threshold 5), after \<open>n\<close> scrapes; the history was stamped at time \<open>0\<close>.
\<close>

definition initial_scraper :: "int \<Rightarrow> int \<Rightarrow> scraper" where
  "initial_scraper initial_frequency_minutes n =
     \<lparr>current_frequency = initial_frequency_minutes,
      min_frequency = 10,
      max_frequency = 240,
      adjustment_threshold = 5,
      scrape_count = n,
      last_adjustment_time = None,
      adjustment_history =
        \<lparr>adjustments = Some [],
         stats = Some \<lparr>total_adjustments = Some 0, increases = Some 0, decreases = Some 0,
                       last_updated = Some 0\<rparr>\<rparr>\<rparr>"

text \<open>
  The history loaded from a \<^verbatim>\<open>frequency_adjustments.json\<close> that \<^verbatim>\<open>database_dashboard.py\<close>
  wrote: that file holds \<^verbatim>\<open>source_adjustments\<close> and \<^verbatim>\<open>last_updated\<close>, and neither
  \<^verbatim>\<open>adjustments\<close> nor \<^verbatim>\<open>stats\<close>.
\<close>

definition dashboard_history :: history where
  "dashboard_history = \<lparr>adjustments = None, stats = None\<rparr>"

definition world0 :: world where
  "world0 = \<lparr>now = 1, save = Saved, analysis = None\<rparr>"

text \<open>
  In \<open>busy_timeline\<close> three of five deals are gone before the third and last snapshot,
  and \<open>busy_stats\<close> and \<open>busy_session_data\<close> are its statistics with a check interval of
  10 minutes; in \<open>brief_timeline\<close> three deals are seen at the first two snapshots. \<open>uniform_data\<close> gives
  both sources the same rate and lifetime, and \<open>empty_session_data\<close> is the analysis of
  a session in which no deal was seen.
\<close>

definition busy_timeline :: "int list dict" where
  "busy_timeline = [(''a'', [1, 2]), (''b'', [1, 2]), (''c'', [1, 2]),
                    (''d'', [1, 2, 3]), (''e'', [1, 2, 3])]"

definition busy_stats :: turnover_stats where
  "busy_stats =
     [(''total_deals_seen'', PyInt 5), (''disappeared_deals'', PyInt 3),
      (''turnover_rate'', PyFloat (py_float (60 / 100))),
      (''avg_lifetime_minutes'', PyFloat (Fin 24))]"

definition busy_session_data :: turnover_data where
  "busy_session_data = [(''gcx_stats'', busy_stats), (''cardcash_stats'', busy_stats)]"

definition brief_timeline :: "int list dict" where
  "brief_timeline = [(''a'', [1, 2]), (''b'', [1, 2]), (''c'', [1, 2])]"

definition uniform_data :: "pynum \<Rightarrow> pynum \<Rightarrow> turnover_data" where
  "uniform_data rate lifetime =
     [(''gcx_stats'', [(''turnover_rate'', rate), (''avg_lifetime_minutes'', lifetime)]),
      (''cardcash_stats'', [(''turnover_rate'', rate), (''avg_lifetime_minutes'', lifetime)])]"

definition empty_session_data :: turnover_data where
  "empty_session_data =
     [(''gcx_stats'', [(''total_deals_seen'', PyInt 0)]),
      (''cardcash_stats'', [(''total_deals_seen'', PyInt 0)])]"

section \<open>Rounding to binary64\<close>

text \<open>
  What the proofs below need of the rounding: the binary exponent is determined by the
  two powers of two around a number, rounding never crosses a number that is itself on
  the grid of the 53-bit significands, and small integers are on that grid. The lemmas
  named \<open>double_\<dots>\<close> are the roundings of the sample inputs.
\<close>

lemma bitlen_powi_bounds:
  fixes a :: int
  assumes "0 < a"
  shows "(2::rat) powi (bitlen a - 1) \<le> of_int a \<and> of_int a < (2::rat) powi bitlen a"
proof -
  from bitlen_bounds [OF assms]
  have lo: "2 ^ nat (bitlen a - 1) \<le> a" and hi: "a < 2 ^ nat (bitlen a)" by auto
  have "bitlen a \<noteq> 0" using assms by (simp add: bitlen_eq_zero_iff)
  with bitlen_nonneg [of a] have ge1: "1 \<le> bitlen a" by linarith
  have "(2::rat) powi (bitlen a - 1) = of_int (2 ^ nat (bitlen a - 1))"
    using ge1 by (simp add: power_int_def)
  moreover have "(2::rat) powi bitlen a = of_int (2 ^ nat (bitlen a))"
    using ge1 by (simp add: power_int_def)
  ultimately show ?thesis using lo hi by (metis of_int_le_iff of_int_less_iff)
qed

lemma floor_log2_bounds:
  assumes "0 < x"
  shows "2 powi floor_log2 x \<le> x \<and> x < 2 powi (floor_log2 x + 1)"
proof -
  obtain a b where q: "quotient_of x = (a, b)" by (cases "quotient_of x")
  have b: "0 < b" using q by (rule quotient_of_denom_pos)
  have x: "x = of_int a / of_int b" using q by (rule quotient_of_div)
  have a: "0 < a"
  proof (rule ccontr)
    assume "\<not> 0 < a"
    then have "of_int a \<le> (0::rat)" by simp
    with b have "of_int a / of_int b \<le> (0::rat)" by (simp add: divide_le_0_iff)
    with x assms show False by simp
  qed
  define n where "n = bitlen a - bitlen b"
  have bpos: "(0::rat) < of_int b" using b by simp
  from bitlen_powi_bounds [OF a]
  have alo: "(2::rat) powi (bitlen a - 1) \<le> of_int a" and ahi: "of_int a < (2::rat) powi bitlen a"
    by auto
  from bitlen_powi_bounds [OF b]
  have blo: "(2::rat) powi (bitlen b - 1) \<le> of_int b" and bhi: "of_int b < (2::rat) powi bitlen b"
    by auto
  have up: "x < 2 powi (n + 1)"
  proof -
    have "of_int a < (2::rat) powi bitlen a" by (rule ahi)
    also have "\<dots> = 2 powi (n + 1) * 2 powi (bitlen b - 1)"
      by (simp add: n_def flip: power_int_add)
    also have "\<dots> \<le> 2 powi (n + 1) * of_int b"
      using blo by (intro mult_left_mono) simp_all
    finally show ?thesis using bpos by (simp add: x pos_divide_less_eq)
  qed
  have low: "2 powi (n - 1) \<le> x"
  proof -
    have "2 powi (n - 1) * of_int b \<le> 2 powi (n - 1) * (2::rat) powi bitlen b"
      using bhi by (intro mult_left_mono) simp_all
    also have "\<dots> = 2 powi (bitlen a - 1)"
      by (simp add: n_def flip: power_int_add)
    also have "\<dots> \<le> of_int a" by (rule alo)
    finally show ?thesis using bpos by (simp add: x pos_le_divide_eq)
  qed
  have fl: "floor_log2 x = (if 2 powi n \<le> x then n else n - 1)"
    by (simp add: floor_log2_def q n_def Let_def)
  show ?thesis
  proof (cases "2 powi n \<le> x")
    case True
    with up fl show ?thesis by simp
  next
    case False
    with low fl show ?thesis by simp
  qed
qed

lemma floor_log2_unique:
  assumes "2 powi L \<le> x" and "x < 2 powi (L + 1)"
  shows "floor_log2 x = L"
proof -
  have "(0::rat) < 2 powi L" by simp
  with assms(1) have pos: "0 < x" by linarith
  from floor_log2_bounds [OF pos]
  have lo: "2 powi floor_log2 x \<le> x" and hi: "x < 2 powi (floor_log2 x + 1)" by auto
  have "\<not> floor_log2 x < L"
  proof
    assume "floor_log2 x < L"
    then have "floor_log2 x + 1 \<le> L" by simp
    then have "(2::rat) powi (floor_log2 x + 1) \<le> 2 powi L" by (intro power_int_increasing) simp_all
    with assms(1) hi show False by linarith
  qed
  moreover have "\<not> L < floor_log2 x"
  proof
    assume "L < floor_log2 x"
    then have "L + 1 \<le> floor_log2 x" by simp
    then have "(2::rat) powi (L + 1) \<le> 2 powi floor_log2 x" by (intro power_int_increasing) simp_all
    with assms(2) lo show False by linarith
  qed
  ultimately show ?thesis by linarith
qed

lemma floor_log2_mono:
  assumes "0 < c" and "c \<le> x"
  shows "floor_log2 c \<le> floor_log2 x"
proof (rule ccontr)
  assume "\<not> floor_log2 c \<le> floor_log2 x"
  then have "floor_log2 x + 1 \<le> floor_log2 c" by simp
  then have "(2::rat) powi (floor_log2 x + 1) \<le> 2 powi floor_log2 c"
    by (intro power_int_increasing) simp_all
  moreover from assms have "0 < x" by linarith
  ultimately show False
    using floor_log2_bounds [OF assms(1)] floor_log2_bounds [OF \<open>0 < x\<close>] assms(2) by linarith
qed

lemma round_half_even_ge:
  assumes "of_int m \<le> y"
  shows "m \<le> round_half_even y"
proof -
  from assms have "m \<le> \<lfloor>y\<rfloor>" by (simp add: le_floor_iff)
  then show ?thesis by (simp add: round_half_even_def Let_def)
qed

lemma round_half_even_of_int [simp]: "round_half_even (of_int m) = m"
  by (simp add: round_half_even_def)

lemma round_half_even_le:
  assumes "y \<le> of_int m"
  shows "round_half_even y \<le> m"
proof (cases "y = of_int m")
  case True
  then show ?thesis by simp
next
  case False
  with assms have "y < of_int m" by simp
  then have "\<lfloor>y\<rfloor> < m" by (simp add: floor_less_iff)
  then show ?thesis by (simp add: round_half_even_def Let_def)
qed


lemma quantum_pos:
  assumes "0 < x"
  shows "quantum x = max (floor_log2 x - 52) (- 1074)"
  using assms by (simp add: quantum_def)

lemma quantum_mono:
  assumes "0 < c" and "c \<le> x"
  shows "quantum c \<le> quantum x"
proof -
  from assms have "0 < x" by linarith
  with assms floor_log2_mono [OF assms] show ?thesis by (simp add: quantum_pos)
qed

lemma round_double_cases:
  assumes "x \<noteq> 0"
    and "r = of_int (round_half_even (x / 2 powi quantum x)) * 2 powi quantum x"
  shows "round_double x =
           (if 2 ^ 1024 \<le> r then PInf else if r \<le> - (2 ^ 1024) then NInf else Fin r)"
  using assms by (simp add: round_double_def Let_def)

lemma round_double_on_grid:
  assumes "x = of_int m * 2 powi quantum x" and "\<bar>x\<bar> < 2 ^ 1024"
  shows "round_double x = Fin x"
proof (cases "x = 0")
  case True
  then show ?thesis by (simp add: round_double_def)
next
  case False
  have "x / 2 powi quantum x = of_int m"
    by (subst assms(1)) simp
  then have "of_int (round_half_even (x / 2 powi quantum x)) * 2 powi quantum x = x"
    using assms(1) by simp
  from round_double_cases [OF False this [symmetric]] assms(2) show ?thesis
    by (simp add: abs_less_iff not_le)
qed

lemma round_double_lower:
  assumes "0 < c" and "c \<le> x" and grid: "c = of_int m * 2 powi quantum c"
  shows "round_double x = PInf \<or> (\<exists>r. round_double x = Fin r \<and> c \<le> r)"
proof -
  from assms have xpos: "0 < x" by linarith
  define r :: rat where "r = of_int (round_half_even (x / 2 powi quantum x)) * 2 powi quantum x"
  have qpos: "(0::rat) < 2 powi quantum x" by simp
  have "c \<le> r"
  proof (cases "quantum c = quantum x")
    case True
    have "c / 2 powi quantum x = of_int m"
      by (subst grid) (simp add: True)
    moreover have "c / 2 powi quantum x \<le> x / 2 powi quantum x"
      using assms(2) qpos by (simp add: divide_right_mono)
    ultimately have "m \<le> round_half_even (x / 2 powi quantum x)"
      by (intro round_half_even_ge) simp
    then have "of_int m * 2 powi quantum x \<le> r"
      unfolding r_def using qpos by (intro mult_right_mono) simp_all
    with grid True show ?thesis by simp
  next
    case False
    with quantum_mono [OF assms(1,2)] have lt: "quantum c < quantum x" by simp
    have qc: "floor_log2 c - 52 \<le> quantum c" by (simp add: quantum_pos [OF assms(1)])
    have "- 1074 \<le> quantum c" by (simp add: quantum_pos [OF assms(1)])
    with lt have qx: "quantum x = floor_log2 x - 52" by (simp add: quantum_pos [OF xpos])
    from qc lt qx have "floor_log2 c + 1 \<le> floor_log2 x" by simp
    then have "(2::rat) powi (floor_log2 c + 1) \<le> 2 powi floor_log2 x"
      by (intro power_int_increasing) simp_all
    with floor_log2_bounds [OF assms(1)] have c_lt: "c < 2 powi floor_log2 x" by linarith
    have "(2::rat) powi (52 + (floor_log2 x - 52)) = 2 powi 52 * 2 powi (floor_log2 x - 52)"
      by (rule power_int_add) simp
    then have split: "2 powi floor_log2 x = 2 powi 52 * (2::rat) powi quantum x"
      by (simp add: qx)
    with floor_log2_bounds [OF xpos] have "2 powi 52 * (2::rat) powi quantum x \<le> x"
      by (simp only:)
    then have "(2::rat) powi 52 \<le> x / 2 powi quantum x"
      using qpos by (simp add: pos_le_divide_eq)
    then have "of_int (2 ^ 52) \<le> x / 2 powi quantum x" by simp
    then have "2 ^ 52 \<le> round_half_even (x / 2 powi quantum x)" by (rule round_half_even_ge)
    then have "(of_int (2 ^ 52) :: rat) \<le> of_int (round_half_even (x / 2 powi quantum x))"
      by (simp only: of_int_le_iff)
    then have "of_int (2 ^ 52) * 2 powi quantum x \<le> r"
      unfolding r_def using qpos by (intro mult_right_mono) simp_all
    moreover have "of_int (2 ^ 52) * 2 powi quantum x = (2::rat) powi floor_log2 x"
      using split by simp
    ultimately show ?thesis using c_lt by linarith
  qed
  with assms(1) have "\<not> r \<le> - (2 ^ 1024)" using zero_less_power [of "2::rat" 1024] by linarith
  with round_double_cases [of x r] xpos r_def \<open>c \<le> r\<close> show ?thesis by auto
qed

lemma round_double_upper:
  assumes "0 < x" and "x \<le> c" and grid: "c = of_int m * 2 powi quantum c"
    and fin: "c < 2 ^ 1024"
  shows "\<exists>r. round_double x = Fin r \<and> 0 \<le> r \<and> r \<le> c"
proof -
  from assms have cpos: "0 < c" by linarith
  define r :: rat where "r = of_int (round_half_even (x / 2 powi quantum x)) * 2 powi quantum x"
  have qpos: "(0::rat) < 2 powi quantum x" by simp
  have "of_int 0 \<le> x / 2 powi quantum x" using assms(1) by simp
  then have "0 \<le> round_half_even (x / 2 powi quantum x)" by (rule round_half_even_ge)
  then have r0: "0 \<le> r" unfolding r_def by simp
  have "r \<le> c"
  proof (cases "quantum x = quantum c")
    case True
    have "c / 2 powi quantum x = of_int m"
      by (subst grid) (simp add: True)
    moreover have "x / 2 powi quantum x \<le> c / 2 powi quantum x"
      using assms(2) qpos by (simp add: divide_right_mono)
    ultimately have "round_half_even (x / 2 powi quantum x) \<le> m"
      by (intro round_half_even_le) simp
    then have "r \<le> of_int m * 2 powi quantum x"
      unfolding r_def using qpos by (intro mult_right_mono) simp_all
    with grid True show ?thesis by simp
  next
    case False
    with quantum_mono [OF assms(1,2)] have lt: "quantum x < quantum c" by simp
    have qx: "floor_log2 x - 52 \<le> quantum x" by (simp add: quantum_pos [OF assms(1)])
    have "- 1074 \<le> quantum x" by (simp add: quantum_pos [OF assms(1)])
    with lt have qc: "quantum c = floor_log2 c - 52" by (simp add: quantum_pos [OF cpos])
    have "floor_log2 x + 1 \<le> quantum x + 53" using qx by simp
    then have "(2::rat) powi (floor_log2 x + 1) \<le> 2 powi (quantum x + 53)"
      by (intro power_int_increasing) simp_all
    with floor_log2_bounds [OF assms(1)] have "x \<le> 2 powi (quantum x + 53)" by linarith
    also have split: "\<dots> = 2 powi 53 * (2::rat) powi quantum x"
      by (subst add.commute, rule power_int_add) simp
    finally have "x / 2 powi quantum x \<le> (2::rat) powi 53"
      using qpos by (simp add: pos_divide_le_eq)
    then have "x / 2 powi quantum x \<le> of_int (2 ^ 53)" by simp
    then have "round_half_even (x / 2 powi quantum x) \<le> 2 ^ 53" by (rule round_half_even_le)
    then have "(of_int (round_half_even (x / 2 powi quantum x)) :: rat) \<le> of_int (2 ^ 53)"
      by (simp only: of_int_le_iff)
    then have "r \<le> of_int (2 ^ 53) * 2 powi quantum x"
      unfolding r_def using qpos by (intro mult_right_mono) simp_all
    also have "of_int (2 ^ 53) * 2 powi quantum x = (2::rat) powi (quantum x + 53)"
      using split by simp
    also have "\<dots> \<le> 2 powi floor_log2 c"
      using lt qc by (intro power_int_increasing) simp_all
    also have "\<dots> \<le> c" using floor_log2_bounds [OF cpos] by simp
    finally show ?thesis .
  qed
  with fin have "\<not> 2 ^ 1024 \<le> r" by simp
  moreover from r0 have "\<not> r \<le> - (2 ^ 1024)" using zero_less_power [of "2::rat" 1024] by linarith
  ultimately show ?thesis
    using round_double_cases [of x r] assms(1) r_def r0 \<open>r \<le> c\<close> by auto
qed

lemma int_on_grid:
  assumes "0 < n" and "n < 2 ^ 53"
  shows "\<exists>m. (of_int n :: rat) = of_int m * 2 powi quantum (of_int n)"
proof -
  let ?x = "of_int n :: rat"
  have xpos: "0 < ?x" using assms(1) by simp
  define L where "L = floor_log2 ?x"
  from floor_log2_bounds [OF xpos]
  have lo: "2 powi L \<le> ?x" and hi: "?x < 2 powi (L + 1)" by (simp_all add: L_def)
  have "(2::rat) powi 0 \<le> ?x" using assms(1) by simp
  with hi have "(2::rat) powi 0 < 2 powi (L + 1)" by linarith
  have L0: "0 \<le> L"
  proof (rule ccontr)
    assume "\<not> 0 \<le> L"
    then have "L + 1 \<le> 0" by simp
    then have "(2::rat) powi (L + 1) \<le> 2 powi 0" by (intro power_int_increasing) simp_all
    with \<open>(2::rat) powi 0 < 2 powi (L + 1)\<close> show False by simp
  qed
  have "?x < of_int (2 ^ 53)" using assms(2) by (simp only: of_int_less_iff)
  then have "?x < 2 powi 53" by simp
  with lo have "(2::rat) powi L < 2 powi 53" by linarith
  then have "L < 53" by (rule power_int_le_imp_less_exp [rotated]) simp_all
  then have L52: "L \<le> 52" by simp
  have q: "quantum ?x = L - 52" using L0 by (simp add: quantum_pos [OF xpos] L_def)
  have "(2::rat) powi (52 - L) = of_int (2 ^ nat (52 - L))"
    using L52 by (simp add: power_int_def)
  then have "of_int (n * 2 ^ nat (52 - L)) * 2 powi quantum ?x =
               ?x * (2 powi (52 - L) * 2 powi (L - 52))"
    by (simp add: q)
  also have "2 powi (52 - L) * (2::rat) powi (L - 52) = 1"
    by (simp flip: power_int_add)
  finally show ?thesis by (intro exI [of _ "n * 2 ^ nat (52 - L)"]) simp
qed

lemma round_double_of_int:
  assumes "0 \<le> n" and "n < 2 ^ 53"
  shows "round_double (of_int n) = Fin (of_int n)"
proof (cases "n = 0")
  case True
  then show ?thesis by (simp add: round_double_def)
next
  case False
  with assms(1) have pos: "0 < n" by simp
  from int_on_grid [OF pos assms(2)] obtain m
    where g: "(of_int n :: rat) = of_int m * 2 powi quantum (of_int n)" by blast
  have "(of_int n :: rat) < of_int (2 ^ 53)" using assms(2) by (simp only: of_int_less_iff)
  moreover have "(of_int (2 ^ 53) :: rat) < 2 ^ 1024" by simp
  ultimately have "\<bar>of_int n :: rat\<bar> < 2 ^ 1024" using pos by simp
  from round_double_on_grid [OF g this] show ?thesis .
qed

lemma round_half_even_eqI:
  assumes "of_int m - 1 / 2 < y" and "y < of_int m + 1 / 2"
  shows "round_half_even y = m"
proof (cases "of_int m \<le> y")
  case True
  moreover from assms(2) have "y < of_int m + 1" by linarith
  ultimately have "\<lfloor>y\<rfloor> = m" by (simp add: floor_unique)
  with assms(2) show ?thesis by (simp add: round_half_even_def Let_def)
next
  case False
  then have "y < of_int (m - 1) + 1" by simp
  moreover from assms(1) have "of_int (m - 1) \<le> y" by simp
  ultimately have "\<lfloor>y\<rfloor> = m - 1" by (rule floor_unique [rotated])
  with assms(1) show ?thesis by (simp add: round_half_even_def Let_def)
qed

lemma round_double_eval:
  assumes "2 powi L \<le> x" and "x < 2 powi (L + 1)"
    and "e = max (L - 52) (- 1074)"
    and "round_half_even (x / 2 powi e) = m"
    and "0 \<le> m"
    and "of_int m * 2 powi e < (2::rat) ^ 1024"
  shows "round_double x = Fin (of_int m * 2 powi e)"
proof -
  have "(0::rat) < 2 powi L" by simp
  with assms(1) have pos: "0 < x" by linarith
  have q: "quantum x = e"
    by (simp add: quantum_pos [OF pos] floor_log2_unique [OF assms(1,2)] assms(3))
  define r where "r = of_int m * (2::rat) powi e"
  have r: "r = of_int (round_half_even (x / 2 powi quantum x)) * 2 powi quantum x"
    by (simp add: r_def q assms(4))
  have "0 \<le> r" unfolding r_def using assms(5) by simp
  then have "\<not> r \<le> - (2 ^ 1024)" using zero_less_power [of "2::rat" 1024] by linarith
  moreover have "\<not> 2 ^ 1024 \<le> r" using assms(6) by (simp add: r_def)
  ultimately show ?thesis using round_double_cases [OF _ r] pos by (simp add: r_def)
qed

lemma round_half_even_tie_even:
  assumes "y = of_int m + 1 / 2" and "even m"
  shows "round_half_even y = m"
proof -
  have "\<lfloor>y\<rfloor> = m" by (rule floor_unique) (simp_all add: assms(1))
  then show ?thesis using assms by (simp add: round_half_even_def Let_def)
qed

lemma round_half_even_tie_odd:
  assumes "y = of_int m + 1 / 2" and "odd m"
  shows "round_half_even y = m + 1"
proof -
  have "\<lfloor>y\<rfloor> = m" by (rule floor_unique) (simp_all add: assms(1))
  then show ?thesis using assms by (simp add: round_half_even_def Let_def)
qed

lemma round_double_numeral:
  assumes "numeral k < (2::int) ^ 53"
  shows "round_double (numeral k) = Fin (numeral k)"
  using round_double_of_int [of "numeral k"] assms by simp

lemma double_0_6:
  "round_double (3 / 5) = Fin (5404319552844595 / 9007199254740992)"
proof -
  have "round_half_even ((3 / 5) / 2 powi (- 53)) = 5404319552844595"
    by (rule round_half_even_eqI) (simp_all add: power_int_minus)
  then have "round_double (3 / 5) = Fin (of_int 5404319552844595 * 2 powi (- 53))"
    by (intro round_double_eval [where L = "- 1"]) (simp_all add: power_int_minus)
  then show ?thesis by (simp add: power_int_minus)
qed

lemma double_0_6_twice:
  "round_double (5404319552844595 / 4503599627370496) = Fin (5404319552844595 / 4503599627370496)"
proof -
  have "round_half_even ((5404319552844595 / 4503599627370496) / 2 powi (- 52)) = 5404319552844595"
    by (rule round_half_even_eqI) (simp_all add: power_int_minus)
  then have "round_double (5404319552844595 / 4503599627370496) = Fin (of_int 5404319552844595 * 2 powi (- 52))"
    by (intro round_double_eval [where L = "0"]) (simp_all add: power_int_minus)
  then show ?thesis by (simp add: power_int_minus)
qed

lemma double_0_6_fixed:
  "round_double (5404319552844595 / 9007199254740992) = Fin (5404319552844595 / 9007199254740992)"
proof -
  have "round_half_even ((5404319552844595 / 9007199254740992) / 2 powi (- 53)) = 5404319552844595"
    by (rule round_half_even_eqI) (simp_all add: power_int_minus)
  then have "round_double (5404319552844595 / 9007199254740992) = Fin (of_int 5404319552844595 * 2 powi (- 53))"
    by (intro round_double_eval [where L = "- 1"]) (simp_all add: power_int_minus)
  then show ?thesis by (simp add: power_int_minus)
qed

lemma double_0_03:
  "round_double (3 / 100) = Fin (1080863910568919 / 36028797018963968)"
proof -
  have "round_half_even ((3 / 100) / 2 powi (- 58)) = 8646911284551352"
    by (rule round_half_even_eqI) (simp_all add: power_int_minus)
  then have "round_double (3 / 100) = Fin (of_int 8646911284551352 * 2 powi (- 58))"
    by (intro round_double_eval [where L = "- 6"]) (simp_all add: power_int_minus)
  then show ?thesis by (simp add: power_int_minus)
qed

lemma double_0_03_twice:
  "round_double (1080863910568919 / 18014398509481984) = Fin (1080863910568919 / 18014398509481984)"
proof -
  have "round_half_even ((1080863910568919 / 18014398509481984) / 2 powi (- 57)) = 8646911284551352"
    by (rule round_half_even_eqI) (simp_all add: power_int_minus)
  then have "round_double (1080863910568919 / 18014398509481984) = Fin (of_int 8646911284551352 * 2 powi (- 57))"
    by (intro round_double_eval [where L = "- 5"]) (simp_all add: power_int_minus)
  then show ?thesis by (simp add: power_int_minus)
qed

lemma double_0_03_fixed:
  "round_double (1080863910568919 / 36028797018963968) = Fin (1080863910568919 / 36028797018963968)"
proof -
  have "round_half_even ((1080863910568919 / 36028797018963968) / 2 powi (- 58)) = 8646911284551352"
    by (rule round_half_even_eqI) (simp_all add: power_int_minus)
  then have "round_double (1080863910568919 / 36028797018963968) = Fin (of_int 8646911284551352 * 2 powi (- 58))"
    by (intro round_double_eval [where L = "- 6"]) (simp_all add: power_int_minus)
  then show ?thesis by (simp add: power_int_minus)
qed

lemma double_0_35:
  "round_double (7 / 20) = Fin (3152519739159347 / 9007199254740992)"
proof -
  have "round_half_even ((7 / 20) / 2 powi (- 54)) = 6305039478318694"
    by (rule round_half_even_eqI) (simp_all add: power_int_minus)
  then have "round_double (7 / 20) = Fin (of_int 6305039478318694 * 2 powi (- 54))"
    by (intro round_double_eval [where L = "- 2"]) (simp_all add: power_int_minus)
  then show ?thesis by (simp add: power_int_minus)
qed

lemma double_0_35_twice:
  "round_double (3152519739159347 / 4503599627370496) = Fin (3152519739159347 / 4503599627370496)"
proof -
  have "round_half_even ((3152519739159347 / 4503599627370496) / 2 powi (- 53)) = 6305039478318694"
    by (rule round_half_even_eqI) (simp_all add: power_int_minus)
  then have "round_double (3152519739159347 / 4503599627370496) = Fin (of_int 6305039478318694 * 2 powi (- 53))"
    by (intro round_double_eval [where L = "- 1"]) (simp_all add: power_int_minus)
  then show ?thesis by (simp add: power_int_minus)
qed

lemma double_0_7_fixed:
  "round_double (3152519739159347 / 4503599627370496) = Fin (3152519739159347 / 4503599627370496)"
proof -
  have "round_half_even ((3152519739159347 / 4503599627370496) / 2 powi (- 53)) = 6305039478318694"
    by (rule round_half_even_eqI) (simp_all add: power_int_minus)
  then have "round_double (3152519739159347 / 4503599627370496) = Fin (of_int 6305039478318694 * 2 powi (- 53))"
    by (intro round_double_eval [where L = "- 1"]) (simp_all add: power_int_minus)
  then show ?thesis by (simp add: power_int_minus)
qed

lemma double_0_7_twice:
  "round_double (3152519739159347 / 2251799813685248) = Fin (3152519739159347 / 2251799813685248)"
proof -
  have "round_half_even ((3152519739159347 / 2251799813685248) / 2 powi (- 52)) = 6305039478318694"
    by (rule round_half_even_eqI) (simp_all add: power_int_minus)
  then have "round_double (3152519739159347 / 2251799813685248) = Fin (of_int 6305039478318694 * 2 powi (- 52))"
    by (intro round_double_eval [where L = "0"]) (simp_all add: power_int_minus)
  then show ?thesis by (simp add: power_int_minus)
qed

lemma double_0_7_thrice:
  "round_double (9457559217478041 / 4503599627370496) = Fin (1182194902184755 / 562949953421312)"
proof -
  have "round_half_even ((9457559217478041 / 4503599627370496) / 2 powi (- 51)) = 4728779608739020"
    by (rule round_half_even_tie_even [where m = "4728779608739020"]) (simp_all add: power_int_minus)
  then have "round_double (9457559217478041 / 4503599627370496) = Fin (of_int 4728779608739020 * 2 powi (- 51))"
    by (intro round_double_eval [where L = "1"]) (simp_all add: power_int_minus)
  then show ?thesis by (simp add: power_int_minus)
qed

lemma double_mean_0_7:
  "round_double (1182194902184755 / 1688849860263936) = Fin (6305039478318693 / 9007199254740992)"
proof -
  have "round_half_even ((1182194902184755 / 1688849860263936) / 2 powi (- 53)) = 6305039478318693"
    by (rule round_half_even_eqI) (simp_all add: power_int_minus)
  then have "round_double (1182194902184755 / 1688849860263936) = Fin (of_int 6305039478318693 * 2 powi (- 53))"
    by (intro round_double_eval [where L = "- 1"]) (simp_all add: power_int_minus)
  then show ?thesis by (simp add: power_int_minus)
qed

lemma round_double_zero: "round_double 0 = Fin 0"
  by (simp add: round_double_def)

lemma round_double_one: "round_double 1 = Fin 1"
  using round_double_of_int [of 1] by simp

lemma round_double_nonneg:
  assumes "0 \<le> x"
  shows "round_double x = PInf \<or> (\<exists>r. round_double x = Fin r \<and> 0 \<le> r)"
proof (cases "x = 0")
  case True
  then show ?thesis by (simp add: round_double_zero)
next
  case False
  define r :: rat where "r = of_int (round_half_even (x / 2 powi quantum x)) * 2 powi quantum x"
  have "of_int 0 \<le> x / 2 powi quantum x" using assms by simp
  then have "0 \<le> round_half_even (x / 2 powi quantum x)" by (rule round_half_even_ge)
  then have r0: "0 \<le> r" unfolding r_def by simp
  then have "\<not> r \<le> - (2 ^ 1024)" using zero_less_power [of "2::rat" 1024] by linarith
  with round_double_cases [OF False r_def] r0 show ?thesis by auto
qed

lemma round_double_bounded:
  assumes "0 \<le> x" and "x \<le> of_int c" and "0 < c" and "c < 2 ^ 53"
  shows "\<exists>r. round_double x = Fin r \<and> 0 \<le> r \<and> r \<le> of_int c"
proof (cases "x = 0")
  case True
  with assms(3) show ?thesis by (simp add: round_double_zero)
next
  case False
  with assms(1) have pos: "0 < x" by simp
  from int_on_grid [OF assms(3,4)] obtain m
    where g: "(of_int c :: rat) = of_int m * 2 powi quantum (of_int c)" by blast
  have "(of_int c :: rat) < of_int (2 ^ 53)" using assms(4) by (simp only: of_int_less_iff)
  moreover have "(of_int (2 ^ 53) :: rat) < 2 ^ 1024" by simp
  ultimately have fin: "(of_int c :: rat) < 2 ^ 1024" by linarith
  from round_double_upper [OF pos assms(2) g fin] show ?thesis .
qed

lemmas eval_defs =
  adjust_frequency_def obtain_turnover_data_def adjust_with_def apply_rules_def
  avg_turnover_def avg_lifetime_def session_analysis_def calculate_turnover_stats_def
  dict_get_def log_adjustment_def save_adjustment_history_def Let_def float_of_int_def
  py_float_def round_double_zero round_double_one round_double_numeral

section \<open>The turnover statistics\<close>

lemma timeline_loop_disappeared_le:
  "timeline_loop dtl n iv ls d = Inr (ls', d') \<Longrightarrow> d' \<le> d + length dtl"
proof (induction dtl arbitrary: ls d)
  case Nil
  then show ?case by simp
next
  case (Cons item rest)
  obtain h apps where item: "item = (h, apps)" by (cases item)
  show ?case
  proof (cases "length (sort apps) < 2")
    case True
    with Cons.prems have "timeline_loop rest n iv ls d = Inr (ls', d')"
      by (simp add: item)
    from Cons.IH [OF this] show ?thesis by simp
  next
    case False
    define d1 where "d1 = (if last (sort apps) < n then d + 1 else d)"
    have d1: "d1 \<le> d + 1" by (simp add: d1_def)
    from False Cons.prems obtain l
      where "timeline_loop rest n iv (ls @ [l]) d1 = Inr (ls', d')"
      by (auto simp: item d1_def Let_def split: sum.splits)
    from Cons.IH [OF this] d1 show ?thesis by simp
  qed
qed

lemma py_truediv_fraction:
  assumes "0 \<le> d" and "d \<le> t" and "0 < t"
  shows "\<exists>r. py_truediv (PyInt d) (PyInt t) = Inr (PyFloat (Fin r)) \<and> 0 \<le> r \<and> r \<le> 1"
proof (cases "d = 0")
  case True
  with assms(3) show ?thesis by (simp add: round_double_zero)
next
  case False
  let ?x = "of_int d / of_int t :: rat"
  from False assms have pos: "0 < ?x" by simp
  from assms have le1: "?x \<le> 1" by simp
  from int_on_grid [of 1] obtain m where g: "(1::rat) = of_int m * 2 powi quantum 1" by auto
  from round_double_upper [OF pos le1 g] obtain r
    where "round_double ?x = Fin r" and "0 \<le> r" and "r \<le> 1" by auto
  with assms(3) show ?thesis by simp
qed

lemma turnover_rate_entry:
  assumes "calculate_turnover_stats dtl n iv src = Inr st"
  shows "unit_rate (dict_get st ''turnover_rate'' (PyInt 0))"
proof (cases "dtl = []")
  case True
  with assms show ?thesis by (auto simp: calculate_turnover_stats_def dict_get_def unit_rate_def)
next
  case False
  from False assms obtain ls d where loop: "timeline_loop dtl n iv [] 0 = Inr (ls, d)"
    by (auto simp: calculate_turnover_stats_def Let_def split: sum.splits)
  from timeline_loop_disappeared_le [OF loop] have "int d \<le> int (length dtl)" by simp
  moreover have "0 < int (length dtl)" using False by simp
  ultimately obtain r
    where r: "py_truediv (PyInt (int d)) (PyInt (int (length dtl))) = Inr (PyFloat (Fin r))"
      and "0 \<le> r" and "r \<le> 1"
    using py_truediv_fraction [of "int d" "int (length dtl)"] by auto
  from False assms loop r have "map_of st ''turnover_rate'' = Some (PyFloat (Fin r))"
    by (auto simp: calculate_turnover_stats_def Let_def split: sum.splits if_splits)
  with \<open>0 \<le> r\<close> \<open>r \<le> 1\<close> show ?thesis by (simp add: dict_get_def unit_rate_def)
qed

text \<open>
  C4, as stated, fails: for the empty timeline, the case in which the total of deals seen
  is 0, the statistics returned are \<^verbatim>\<open>{"total_deals_seen": 0}\<close> and hold no turnover rate
  at all, so there is no rate that equals 0.
\<close>

theorem empty_timeline_has_no_turnover_rate:
  "calculate_turnover_stats [] 3 (PyInt 10) ''raise'' = Inr [(''total_deals_seen'', PyInt 0)] \<and>
   map_of [(''total_deals_seen'', PyInt 0)] ''turnover_rate'' = None"
  by (simp add: calculate_turnover_stats_def)

text \<open>
  C4, amended. With no deal seen, \<^verbatim>\<open>_calculate_turnover_stats\<close> returns exactly
  \<^verbatim>\<open>{"total_deals_seen": 0}\<close>, without a turnover rate. For every non-empty timeline, any
  snapshot count and any check interval, the statistics it returns hold the number of
  deals as \<^verbatim>\<open>total_deals_seen\<close> and a turnover rate that is a finite float from 0 to 1.
\<close>

theorem turnover_rate_of_seen_deals:
  "calculate_turnover_stats [] n iv src = Inr [(''total_deals_seen'', PyInt 0)] \<and>
   (dtl \<noteq> [] \<longrightarrow> calculate_turnover_stats dtl n iv src = Inr st \<longrightarrow>
      map_of st ''total_deals_seen'' = Some (PyInt (int (length dtl))) \<and>
      (\<exists>r. map_of st ''turnover_rate'' = Some (PyFloat (Fin r)) \<and> 0 \<le> r \<and> r \<le> 1))"
proof -
  have "map_of st ''total_deals_seen'' = Some (PyInt (int (length dtl))) \<and>
        (\<exists>r. map_of st ''turnover_rate'' = Some (PyFloat (Fin r)) \<and> 0 \<le> r \<and> r \<le> 1)"
    if ne: "dtl \<noteq> []" and ret: "calculate_turnover_stats dtl n iv src = Inr st"
  proof -
    from ne ret obtain ls d where loop: "timeline_loop dtl n iv [] 0 = Inr (ls, d)"
      by (auto simp: calculate_turnover_stats_def Let_def split: sum.splits)
    from timeline_loop_disappeared_le [OF loop] have "int d \<le> int (length dtl)" by simp
    moreover have "0 < int (length dtl)" using ne by simp
    ultimately obtain r
      where r: "py_truediv (PyInt (int d)) (PyInt (int (length dtl))) = Inr (PyFloat (Fin r))"
        and "0 \<le> r" and "r \<le> 1"
      using py_truediv_fraction [of "int d" "int (length dtl)"] by auto
    from ne ret loop r obtain avg
      where "st = [(''total_deals_seen'', PyInt (int (length dtl))),
                   (''disappeared_deals'', PyInt (int d)),
                   (''turnover_rate'', PyFloat (Fin r)),
                   (''avg_lifetime_minutes'', avg)]"
      by (auto simp: calculate_turnover_stats_def Let_def split: sum.splits if_splits)
    with \<open>0 \<le> r\<close> \<open>r \<le> 1\<close> show ?thesis by simp
  qed
  then show ?thesis by (simp add: calculate_turnover_stats_def)
qed

theorem turnover_rate_of_seen_deals_witness:
  "busy_timeline \<noteq> [] \<and>
   calculate_turnover_stats busy_timeline 3 (PyInt 10) ''raise'' = Inr busy_stats \<and>
   map_of busy_stats ''total_deals_seen'' = Some (PyInt (int (length busy_timeline))) \<and>
   (\<exists>r. map_of busy_stats ''turnover_rate'' = Some (PyFloat (Fin r)) \<and> 0 \<le> r \<and> r \<le> 1)"
proof -
  have a: "busy_timeline \<noteq> []" by (simp add: busy_timeline_def)
  have b: "calculate_turnover_stats busy_timeline 3 (PyInt 10) ''raise'' = Inr busy_stats"
    by (simp add: eval_defs busy_timeline_def busy_stats_def double_0_6)
  from turnover_rate_of_seen_deals [of 3 "PyInt 10" "''raise''" busy_timeline busy_stats] a b
  show ?thesis by blast
qed

section \<open>Deals that disappeared\<close>

text \<open>
  C3, on the code. A deal observed once, at the first of three snapshots, is counted in
  \<^verbatim>\<open>total_deals_seen\<close>, and its last observation is before the last snapshot, but
  \<^verbatim>\<open>disappeared_deals\<close> is 0: the loop leaves a deal with fewer than two observations
  before it looks at the last one.
\<close>

theorem single_observation_not_counted_as_disappeared:
  "calculate_turnover_stats [(''a'', [1])] 3 (PyInt 10) ''raise'' =
     Inr [(''total_deals_seen'', PyInt 1), (''disappeared_deals'', PyInt 0),
          (''turnover_rate'', PyFloat (Fin 0)), (''avg_lifetime_minutes'', PyInt 0)] \<and>
   length (filter (\<lambda>(deal_hash, apps). last (sort apps) < 3) [(''a'', [1::int])]) = 1"
  by (simp add: eval_defs)

text \<open>
  What the loop counts: the deals with at least two observations whose last observation
  is before the last snapshot.
\<close>

lemma timeline_loop_disappeared:
  "timeline_loop dtl n iv ls d = Inr (ls', d') \<Longrightarrow>
   d' = d + length (filter (\<lambda>(deal_hash, apps). 2 \<le> length apps \<and> last (sort apps) < n) dtl)"
proof (induction dtl arbitrary: ls d)
  case Nil
  then show ?case by simp
next
  case (Cons item rest)
  obtain h apps where item: "item = (h, apps)" by (cases item)
  show ?case
  proof (cases "length (sort apps) < 2")
    case True
    with Cons.prems have "timeline_loop rest n iv ls d = Inr (ls', d')"
      by (simp add: item)
    from Cons.IH [OF this] True show ?thesis by (simp add: item)
  next
    case False
    define d1 where "d1 = (if last (sort apps) < n then d + 1 else d)"
    from False Cons.prems obtain l
      where "timeline_loop rest n iv (ls @ [l]) d1 = Inr (ls', d')"
      by (auto simp: item d1_def Let_def split: sum.splits)
    from Cons.IH [OF this] False show ?thesis by (simp add: item d1_def)
  qed
qed

lemma disappeared_deals_counts_repeated_items:
  assumes "dtl \<noteq> []" and "calculate_turnover_stats dtl n iv src = Inr st"
  shows "map_of st ''disappeared_deals'' =
           Some (PyInt (int (length
             (filter (\<lambda>(deal_hash, apps). 2 \<le> length apps \<and> last (sort apps) < n) dtl))))"
proof -
  from assms obtain ls d where loop: "timeline_loop dtl n iv [] 0 = Inr (ls, d)"
    by (auto simp: calculate_turnover_stats_def Let_def split: sum.splits)
  from timeline_loop_disappeared [OF loop] assms loop show ?thesis
    by (auto simp: calculate_turnover_stats_def Let_def split: sum.splits if_splits)
qed

section \<open>The average lifetime\<close>

text \<open>
  C10, as stated, fails: three deals seen at snapshots 1 and 2 with a check interval of
  0.35 minutes have an average lifetime of 0.6999999999999998, which is not zero and is
  below twice the interval, 0.7. Each lifetime is 0.7; their float sum is
  2.0999999999999996, and its third is rounded down.
\<close>

theorem float_mean_below_two_intervals:
  "py_float (35 / 100) = Fin (3152519739159347 / 9007199254740992) \<and>
   calculate_turnover_stats brief_timeline 2 (PyFloat (py_float (35 / 100))) ''raise'' =
     Inr [(''total_deals_seen'', PyInt 3), (''disappeared_deals'', PyInt 0),
          (''turnover_rate'', PyFloat (Fin 0)),
          (''avg_lifetime_minutes'', PyFloat (Fin (6305039478318693 / 9007199254740992)))] \<and>
   (6305039478318693 / 9007199254740992 :: rat) \<noteq> 0 \<and>
   (6305039478318693 / 9007199254740992 :: rat) < 2 * (3152519739159347 / 9007199254740992)"
  by (simp add: eval_defs brief_timeline_def double_0_35 double_0_35_twice double_0_7_fixed
      double_0_7_twice double_0_7_thrice double_mean_0_7)

lemma strictly_increasing_span:
  fixes xs :: "int list"
  assumes "sorted_wrt (<) xs" and "2 \<le> length xs"
  shows "hd xs < last xs"
proof -
  from assms(2) obtain a b rest where xs: "xs = a # b # rest"
    by (cases xs; cases "tl xs") auto
  have "last xs \<in> set (b # rest)" unfolding xs by (metis last_ConsR last_in_set list.distinct(1))
  with assms(1) show ?thesis unfolding xs by auto
qed

lemma strictly_increasing_sort:
  fixes xs :: "int list"
  assumes "sorted_wrt (<) xs"
  shows "sort xs = xs"
proof -
  from assms have "sorted xs" by (rule strict_sorted_imp_sorted)
  then show ?thesis by (simp add: sorted_sort_id)
qed

lemma timeline_loop_whole_minutes:
  assumes "\<forall>(deal_hash, apps) \<in> set dtl. sorted_wrt (<) apps"
    and "0 \<le> iv"
    and "\<forall>x \<in> set ls. \<exists>v. x = PyInt v \<and> 2 * iv \<le> v"
  shows "\<exists>ls' d'. timeline_loop dtl n (PyInt iv) ls d = Inr (ls', d') \<and>
           (\<forall>x \<in> set ls'. \<exists>v. x = PyInt v \<and> 2 * iv \<le> v)"
  using assms
proof (induction dtl arbitrary: ls d)
  case Nil
  then show ?case by simp
next
  case (Cons item rest)
  obtain h apps where item: "item = (h, apps)" by (cases item)
  from Cons.prems(1) have inc: "sorted_wrt (<) apps"
    and rest: "\<forall>(deal_hash, apps) \<in> set rest. sorted_wrt (<) apps"
    by (simp_all add: item)
  have srt: "sort apps = apps" using inc by (rule strictly_increasing_sort)
  show ?case
  proof (cases "length apps < 2")
    case True
    then have "timeline_loop (item # rest) n (PyInt iv) ls d = timeline_loop rest n (PyInt iv) ls d"
      by (simp add: item srt)
    with Cons.IH [OF rest Cons.prems(2) Cons.prems(3), of d] show ?thesis by simp
  next
    case False
    define d1 where "d1 = (if last apps < n then d + 1 else d)"
    define l where "l = (last apps - hd apps + 1) * iv"
    from False
    have step: "timeline_loop (item # rest) n (PyInt iv) ls d =
                  timeline_loop rest n (PyInt iv) (ls @ [PyInt l]) d1"
      by (simp add: item srt d1_def l_def Let_def)
    from False have "hd apps < last apps" using strictly_increasing_span [OF inc] by simp
    then have "2 \<le> last apps - hd apps + 1" by simp
    then have "2 * iv \<le> l" unfolding l_def using Cons.prems(2) by (rule mult_right_mono)
    with Cons.prems(3) have "\<forall>x \<in> set (ls @ [PyInt l]). \<exists>v. x = PyInt v \<and> 2 * iv \<le> v"
      by auto
    from Cons.IH [OF rest Cons.prems(2) this, of d1] step show ?thesis by simp
  qed
qed

lemma py_sum_whole_minutes:
  assumes "\<forall>x \<in> set ls. \<exists>v. x = PyInt v \<and> c \<le> v"
  shows "\<exists>t. py_sum (PyInt a) ls = Inr (PyInt t) \<and> a + int (length ls) * c \<le> t"
  using assms
proof (induction ls arbitrary: a)
  case Nil
  then show ?case by simp
next
  case (Cons x xs)
  from Cons.prems obtain v where x: "x = PyInt v" and v: "c \<le> v" by auto
  from Cons.prems have "\<forall>x \<in> set xs. \<exists>v. x = PyInt v \<and> c \<le> v" by simp
  from Cons.IH [OF this, of "a + v"] obtain t
    where "py_sum (PyInt (a + v)) xs = Inr (PyInt t)" and "a + v + int (length xs) * c \<le> t"
    by blast
  with x v show ?case by (auto simp: algebra_simps)
qed

lemma py_truediv_mean:
  assumes "0 \<le> c" and "c < 2 ^ 53" and "0 < k" and "k * c \<le> t"
    and "py_truediv (PyInt t) (PyInt k) = Inr v"
  shows "\<exists>r. v = PyFloat (Fin r) \<and> of_int c \<le> r"
proof -
  let ?x = "of_int t / of_int k :: rat"
  have kpos: "(0::rat) < of_int k" using assms(3) by simp
  have "(of_int (k * c) :: rat) \<le> of_int t" using assms(4) by (simp only: of_int_le_iff)
  then have cx: "of_int c \<le> ?x" using kpos by (simp add: pos_le_divide_eq mult.commute)
  from assms(3,5) obtain r where v: "v = PyFloat (Fin r)" and r: "round_double ?x = Fin r"
    by (auto split: pyfloat.splits)
  show ?thesis
  proof (cases "c = 0")
    case True
    with cx have "0 \<le> ?x" by simp
    from round_double_nonneg [OF this] r have "0 \<le> r" by auto
    with True v show ?thesis by simp
  next
    case False
    with assms(1) have cpos: "0 < c" by simp
    then have cpos': "(0::rat) < of_int c" by simp
    from int_on_grid [OF cpos assms(2)] obtain m
      where g: "(of_int c :: rat) = of_int m * 2 powi quantum (of_int c)" by blast
    from round_double_lower [OF cpos' cx g] r have "of_int c \<le> r" by auto
    with v show ?thesis by simp
  qed
qed

text \<open>
  C10, amended. For every deal timeline whose observation lists are strictly increasing
  sequence numbers and every check interval that is a whole number of minutes (a Python
  \<^verbatim>\<open>int\<close>, as the sessions store it) from 0 to below \<open>2 ^ 52\<close>, the average lifetime in
  the statistics returned is the integer 0 (no deal was seen twice) or a finite float
  that is at least twice the check interval.
\<close>

theorem mean_of_whole_minutes_at_least_two_intervals:
  assumes "\<forall>(deal_hash, apps) \<in> set dtl. sorted_wrt (<) apps"
    and "0 \<le> iv" and "iv < 2 ^ 52"
    and "calculate_turnover_stats dtl n (PyInt iv) src = Inr st"
    and "map_of st ''avg_lifetime_minutes'' = Some v"
  shows "v = PyInt 0 \<or> (\<exists>r. v = PyFloat (Fin r) \<and> of_int (2 * iv) \<le> r)"
proof -
  from assms(4,5) have ne: "dtl \<noteq> []"
    by (auto simp: calculate_turnover_stats_def)
  from timeline_loop_whole_minutes [OF assms(1,2), of "[]" n 0] obtain ls d
    where loop: "timeline_loop dtl n (PyInt iv) [] 0 = Inr (ls, d)"
      and all: "\<forall>x \<in> set ls. \<exists>v. x = PyInt v \<and> 2 * iv \<le> v"
    by auto
  show ?thesis
  proof (cases "ls = []")
    case True
    with ne loop assms(4,5) show ?thesis
      by (auto simp: calculate_turnover_stats_def Let_def split: sum.splits if_splits)
  next
    case False
    from py_sum_whole_minutes [OF all, of 0] obtain t
      where sum: "py_sum (PyInt 0) ls = Inr (PyInt t)" and t: "int (length ls) * (2 * iv) \<le> t"
      by auto
    from ne loop False sum assms(4,5)
    have div: "py_truediv (PyInt t) (PyInt (int (length ls))) = Inr v"
      by (auto simp: calculate_turnover_stats_def Let_def split: sum.splits if_splits)
    have c0: "0 \<le> 2 * iv" using assms(2) by simp
    have c1: "2 * iv < 2 ^ 53" using assms(3) by simp
    have k: "0 < int (length ls)" using False by simp
    from py_truediv_mean [OF c0 c1 k t div] show ?thesis by simp
  qed
qed

theorem mean_of_whole_minutes_at_least_two_intervals_witness:
  "(0::int) \<le> 10 \<and> (10::int) < 2 ^ 52 \<and>
   calculate_turnover_stats busy_timeline 3 (PyInt 10) ''raise'' = Inr busy_stats \<and>
   map_of busy_stats ''avg_lifetime_minutes'' = Some (PyFloat (Fin 24)) \<and>
   (\<exists>r. PyFloat (Fin 24) = PyFloat (Fin r) \<and> of_int (2 * 10) \<le> r)"
proof -
  have a: "\<forall>(deal_hash, apps) \<in> set busy_timeline. sorted_wrt (<) apps"
    by (simp add: busy_timeline_def)
  have b: "(0::int) \<le> 10" and c: "(10::int) < 2 ^ 52" by simp_all
  have d: "calculate_turnover_stats busy_timeline 3 (PyInt 10) ''raise'' = Inr busy_stats"
    by (simp add: eval_defs busy_timeline_def busy_stats_def double_0_6)
  have e: "map_of busy_stats ''avg_lifetime_minutes'' = Some (PyFloat (Fin 24))"
    by (simp add: busy_stats_def)
  from mean_of_whole_minutes_at_least_two_intervals [OF a b c d e] b c d e
  show ?thesis by auto
qed

section \<open>The frequency bounds\<close>

text \<open>
  C6, on the code. \<^verbatim>\<open>set_frequency_bounds(400, 500)\<close> leaves a minimum of 400, above the
  absolute maximum of 360 that the comments of the method give, with a maximum of 360;
  the next eligible adjustment, with metrics in the normal range, then moves the interval
  from 60 to 400 minutes.
\<close>

theorem bounds_outside_absolute_range:
  "min_frequency (set_frequency_bounds (initial_scraper 60 5) 400 500) = 400 \<and>
   max_frequency (set_frequency_bounds (initial_scraper 60 5) 400 500) = 360 \<and>
   current_frequency
     (adjust_frequency (set_frequency_bounds (initial_scraper 60 5) 400 500)
        (Some (uniform_data (PyInt 20) (PyInt 60))) world0) = 400"
  by (simp add: eval_defs set_frequency_bounds_def uniform_data_def initial_scraper_def
      world0_def)

text \<open>
  Each bound is clamped on one side only.
\<close>

lemma bounds_one_sided:
  "min_frequency (set_frequency_bounds s min_minutes max_minutes) = max 5 min_minutes \<and>
   max_frequency (set_frequency_bounds s min_minutes max_minutes) = min 360 max_minutes"
  by (simp add: set_frequency_bounds_def)

section \<open>Adjusting the frequency\<close>

text \<open>
  C5. With fewer scrapes than the adjustment threshold, \<^verbatim>\<open>adjust_frequency\<close> returns at
  once: the whole state (frequency, history, counters, time of the last adjustment) is
  what it was, whatever turnover data is passed.
\<close>

theorem below_threshold_noop:
  "scrape_count s < adjustment_threshold s \<Longrightarrow> adjust_frequency s turnover_data w = s"
  by (simp add: adjust_frequency_def)

theorem below_threshold_noop_witness:
  "scrape_count (initial_scraper 60 4) < adjustment_threshold (initial_scraper 60 4) \<and>
   adjust_frequency (initial_scraper 60 4) (Some (uniform_data (PyInt 60) (PyInt 40))) world0 =
     initial_scraper 60 4"
proof -
  have h: "scrape_count (initial_scraper 60 4) < adjustment_threshold (initial_scraper 60 4)"
    by (simp add: initial_scraper_def)
  from below_threshold_noop [OF h] h show ?thesis by blast
qed

lemma log_adjustment_frequency:
  "current_frequency (state_of (log_adjustment s old_freq new_freq rsn conf mtr w)) =
     current_frequency s"
  by (cases "save w")
     (auto simp: log_adjustment_def save_adjustment_history_def Let_def
           split: sum.splits option.splits)

lemma adjust_with_frequency:
  assumes "avg_turnover td = Inr avg_t" and "avg_lifetime td = Inr avg_l"
  shows "current_frequency (adjust_with s td w) =
           max (min_frequency s) (min (max_frequency s) (fst (apply_rules s avg_t avg_l)))"
proof -
  obtain f conf rsn where r: "apply_rules s avg_t avg_l = (f, conf, rsn)"
    by (cases "apply_rules s avg_t avg_l")
  define f' where "f' = max (min_frequency s) (min (max_frequency s) f)"
  show ?thesis
  proof (cases "current_frequency s = f'")
    case True
    with assms r show ?thesis by (simp add: adjust_with_def Let_def f'_def)
  next
    case False
    let ?o = "log_adjustment (s\<lparr>current_frequency := f'\<rparr>) (current_frequency s) f' rsn conf td w"
    have "current_frequency (state_of ?o) = f'"
      by (simp add: log_adjustment_frequency)
    moreover from False assms r
    have "adjust_with s td w =
            (case ?o of Raised e s2 \<Rightarrow> s2
             | Returned s2 \<Rightarrow> s2\<lparr>last_adjustment_time := Some (now w)\<rparr>)"
      by (simp add: adjust_with_def Let_def f'_def)
    ultimately show ?thesis using r by (cases ?o) (simp_all add: f'_def)
  qed
qed

lemma adjust_frequency_eligible:
  "adjustment_threshold s \<le> scrape_count s \<Longrightarrow>
   obtain_turnover_data turnover_data w = Some td \<Longrightarrow>
   adjust_frequency s turnover_data w = adjust_with s td w"
  by (simp add: adjust_frequency_def)

lemma eligible5: "adjustment_threshold (initial_scraper f 5) \<le> scrape_count (initial_scraper f 5)"
  by (simp add: initial_scraper_def)

lemma obtain_uniform: "obtain_turnover_data (Some (uniform_data r l)) w = Some (uniform_data r l)"
  by (simp add: obtain_turnover_data_def uniform_data_def)

text \<open>
  C1, on the code. \<^verbatim>\<open>_calculate_turnover_stats\<close> gives the turnover rate as a fraction
  of the deals seen, and \<^verbatim>\<open>adjust_frequency\<close> compares the average of two such rates
  with 50. For a session in which 60 percent of the deals of both sources disappeared
  (rate 0.6), with frequency 60 and bounds 10 and 240, the rule that applies is "low
  turnover rate", and the frequency becomes 70, not 15.
\<close>

theorem sixty_percent_turnover_lengthens_interval:
  "session_analysis busy_timeline busy_timeline 3 (PyInt 10) = Inr busy_session_data \<and>
   map_of busy_stats ''turnover_rate'' = Some (PyFloat (py_float (60 / 100))) \<and>
   avg_turnover busy_session_data = Inr (PyFloat (py_float (60 / 100))) \<and>
   avg_lifetime busy_session_data = Inr (PyFloat (Fin 24)) \<and>
   apply_rules (initial_scraper 60 5) (PyFloat (py_float (60 / 100))) (PyFloat (Fin 24)) =
     (70, ''medium'', ''low turnover rate'') \<and>
   current_frequency
     (adjust_frequency (initial_scraper 60 5) (Some busy_session_data) world0) = 70"
  by (simp add: eval_defs busy_timeline_def busy_stats_def busy_session_data_def
      initial_scraper_def world0_def double_0_6 double_0_6_twice double_0_6_fixed)

text \<open>
  More generally, the average turnover of the statistics of any session is a float from
  0 to 1, and neither of the two high-turnover rules applies to it.
\<close>

lemma halve_bounded:
  assumes "0 \<le> x" and "x \<le> 2"
  shows "\<exists>q. py_truediv (PyFloat (Fin x)) (PyInt 2) = Inr (PyFloat (Fin q)) \<and> 0 \<le> q \<and> q \<le> 1"
proof -
  have "0 \<le> x / 2" and "x / 2 \<le> of_int 1" using assms by simp_all
  from round_double_bounded [OF this] obtain q
    where "round_double (x / 2) = Fin q" and "0 \<le> q" and "q \<le> 1" by auto
  then show ?thesis by (simp add: float_of_int_def round_double_numeral)
qed

lemma average_of_unit_rates:
  assumes "unit_rate a" and "unit_rate b"
  shows "\<exists>t q. py_add a b = Inr t \<and> py_truediv t (PyInt 2) = Inr (PyFloat (Fin q)) \<and>
           0 \<le> q \<and> q \<le> 1"
proof -
  consider (ii) "a = PyInt 0" "b = PyInt 0"
    | (if') r where "a = PyInt 0" "b = PyFloat (Fin r)" "0 \<le> r" "r \<le> 1"
    | (fi) r where "a = PyFloat (Fin r)" "b = PyInt 0" "0 \<le> r" "r \<le> 1"
    | (ff) r1 r2 where "a = PyFloat (Fin r1)" "b = PyFloat (Fin r2)"
        "0 \<le> r1" "r1 \<le> 1" "0 \<le> r2" "r2 \<le> 1"
    using assms by (auto simp: unit_rate_def split: pynum.splits pyfloat.splits)
  then show ?thesis
  proof cases
    case ii
    then show ?thesis by (simp add: round_double_zero)
  next
    case if'
    have "0 \<le> r" and "r \<le> of_int 2" using if' by simp_all
    from round_double_bounded [OF this] obtain x
      where x: "round_double r = Fin x" and "0 \<le> x" and "x \<le> 2" by auto
    from halve_bounded [OF this(2,3)] x if' show ?thesis
      by (simp add: float_of_int_def round_double_zero)
  next
    case fi
    have "0 \<le> r" and "r \<le> of_int 2" using fi by simp_all
    from round_double_bounded [OF this] obtain x
      where x: "round_double r = Fin x" and "0 \<le> x" and "x \<le> 2" by auto
    from halve_bounded [OF this(2,3)] x fi show ?thesis
      by (simp add: float_of_int_def round_double_zero)
  next
    case ff
    have "0 \<le> r1 + r2" and "r1 + r2 \<le> of_int 2" using ff by simp_all
    from round_double_bounded [OF this] obtain x
      where x: "round_double (r1 + r2) = Fin x" and "0 \<le> x" and "x \<le> 2" by auto
    from halve_bounded [OF this(2,3)] x ff show ?thesis by simp
  qed
qed

lemma high_turnover_rules_unreachable:
  assumes "session_analysis g c n iv = Inr td"
  shows "\<exists>q. avg_turnover td = Inr (PyFloat (Fin q)) \<and> 0 \<le> q \<and> q \<le> 1 \<and>
           snd (snd (apply_rules s (PyFloat (Fin q)) avg_l)) \<noteq> ''very high turnover rate'' \<and>
           snd (snd (apply_rules s (PyFloat (Fin q)) avg_l)) \<noteq> ''high turnover rate''"
proof -
  from assms obtain gs cs
    where g: "calculate_turnover_stats g n iv ''raise'' = Inr gs"
      and c: "calculate_turnover_stats c n iv ''cardcash'' = Inr cs"
      and td: "td = [(''gcx_stats'', gs), (''cardcash_stats'', cs)]"
    by (auto simp: session_analysis_def split: sum.splits)
  from average_of_unit_rates [OF turnover_rate_entry [OF g] turnover_rate_entry [OF c]]
  obtain t q
    where "py_add (dict_get gs ''turnover_rate'' (PyInt 0)) (dict_get cs ''turnover_rate'' (PyInt 0))
             = Inr t"
      and "py_truediv t (PyInt 2) = Inr (PyFloat (Fin q))" and q: "0 \<le> q" "q \<le> 1"
    by blast
  then have "avg_turnover td = Inr (PyFloat (Fin q))"
    by (simp add: avg_turnover_def td dict_get_def)
  with q show ?thesis by (auto simp: apply_rules_def)
qed

text \<open>
  C2, as stated, fails: with average turnover 3 (read as a percentage, or as the fraction
  0.03), average lifetime 200, frequency 60 and bounds 10 and 240, the resulting
  frequency is not 80.
\<close>

theorem worked_example_not_80:
  "current_frequency
     (adjust_frequency (initial_scraper 60 5) (Some (uniform_data (PyInt 3) (PyInt 200))) world0)
     \<noteq> 80 \<and>
   current_frequency
     (adjust_frequency (initial_scraper 60 5)
        (Some (uniform_data (PyFloat (py_float (3 / 100))) (PyInt 200))) world0) \<noteq> 80"
  by (simp add: eval_defs uniform_data_def initial_scraper_def world0_def
      double_0_03 double_0_03_twice double_0_03_fixed)

text \<open>
  C2, amended. For an eligible call with average turnover 3 percent (the float 3.0, or
  the fraction 0.03), average lifetime 200 minutes, frequency 60, maximum 240 and a
  minimum of at most 120, the rule "very low turnover and long deal lifetime" applies
  with confidence "high", and the resulting frequency is min(240, max(120, 60 + 20)) =
  120 minutes.
\<close>

theorem worked_example_120:
  assumes "adjustment_threshold s \<le> scrape_count s"
    and "obtain_turnover_data turnover_data w = Some td"
    and "avg_turnover td = Inr (PyFloat (Fin 3)) \<or>
         avg_turnover td = Inr (PyFloat (py_float (3 / 100)))"
    and "avg_lifetime td = Inr (PyFloat (Fin 200))"
    and "current_frequency s = 60"
    and "max_frequency s = 240"
    and "min_frequency s \<le> 120"
  shows "apply_rules s (PyFloat (Fin 3)) (PyFloat (Fin 200)) =
           (min 240 (max 120 (60 + 20)), ''high'', ''very low turnover and long deal lifetime'') \<and>
         apply_rules s (PyFloat (py_float (3 / 100))) (PyFloat (Fin 200)) =
           (min 240 (max 120 (60 + 20)), ''high'', ''very low turnover and long deal lifetime'') \<and>
         current_frequency (adjust_frequency s turnover_data w) = 120"
proof -
  have r1: "apply_rules s (PyFloat (Fin 3)) (PyFloat (Fin 200)) =
           (120, ''high'', ''very low turnover and long deal lifetime'')"
    using assms(5,6) by (simp add: apply_rules_def)
  have r2: "apply_rules s (PyFloat (py_float (3 / 100))) (PyFloat (Fin 200)) =
           (120, ''high'', ''very low turnover and long deal lifetime'')"
    using assms(5,6) by (simp add: apply_rules_def py_float_def double_0_03)
  from assms(3) obtain avg_t
    where t: "avg_turnover td = Inr avg_t"
      and rt: "apply_rules s avg_t (PyFloat (Fin 200)) =
                 (120, ''high'', ''very low turnover and long deal lifetime'')"
    using r1 r2 by auto
  have "current_frequency (adjust_frequency s turnover_data w) =
          max (min_frequency s) (min (max_frequency s) 120)"
    using assms(1,2) by (simp add: adjust_frequency_eligible adjust_with_frequency [OF t assms(4)] rt)
  with r1 r2 assms(6,7) show ?thesis by simp
qed

theorem worked_example_120_witness:
  "adjustment_threshold (initial_scraper 60 5) \<le> scrape_count (initial_scraper 60 5) \<and>
   obtain_turnover_data (Some (uniform_data (PyInt 3) (PyInt 200))) world0 =
     Some (uniform_data (PyInt 3) (PyInt 200)) \<and>
   avg_turnover (uniform_data (PyInt 3) (PyInt 200)) = Inr (PyFloat (Fin 3)) \<and>
   avg_lifetime (uniform_data (PyInt 3) (PyInt 200)) = Inr (PyFloat (Fin 200)) \<and>
   current_frequency (initial_scraper 60 5) = 60 \<and>
   max_frequency (initial_scraper 60 5) = 240 \<and>
   min_frequency (initial_scraper 60 5) \<le> 120 \<and>
   current_frequency
     (adjust_frequency (initial_scraper 60 5) (Some (uniform_data (PyInt 3) (PyInt 200))) world0)
     = 120"
proof -
  note el = eligible5 [of 60]
  note ob = obtain_uniform [of "PyInt 3" "PyInt 200" world0]
  have t: "avg_turnover (uniform_data (PyInt 3) (PyInt 200)) = Inr (PyFloat (Fin 3))"
    by (simp add: eval_defs uniform_data_def)
  have l: "avg_lifetime (uniform_data (PyInt 3) (PyInt 200)) = Inr (PyFloat (Fin 200))"
    by (simp add: eval_defs uniform_data_def)
  have c: "current_frequency (initial_scraper 60 5) = 60"
    and mx: "max_frequency (initial_scraper 60 5) = 240"
    and mn: "min_frequency (initial_scraper 60 5) \<le> 120"
    by (simp_all add: initial_scraper_def)
  from worked_example_120 [OF el ob disjI1 [OF t] l c mx mn] el ob t l c mx mn
  show ?thesis by blast
qed

text \<open>
  C9, as stated, fails: with the statistics of a session in which no deal was seen for
  either source, an eligible call changes the frequency of a fresh scraper (from 60).
\<close>

theorem empty_stats_change_interval:
  "session_analysis [] [] 3 (PyInt 10) = Inr empty_session_data \<and>
   current_frequency (adjust_frequency (initial_scraper 60 5) (Some empty_session_data) world0)
     \<noteq> current_frequency (initial_scraper 60 5)"
  by (simp add: eval_defs empty_session_data_def initial_scraper_def world0_def)

text \<open>
  C9, amended. For every eligible call whose turnover data has no \<^verbatim>\<open>turnover_rate\<close> and
  no \<^verbatim>\<open>avg_lifetime_minutes\<close> for either source, the missing metrics take their
  defaults (average turnover 0.0, average lifetime 120.0), the rule "low turnover rate"
  with confidence "medium" applies, and the frequency becomes the old one plus 10
  minutes, clamped to the bounds.
\<close>

theorem empty_stats_low_turnover_rule:
  assumes "adjustment_threshold s \<le> scrape_count s"
    and "obtain_turnover_data turnover_data w = Some td"
    and "map_of (dict_get td ''gcx_stats'' []) ''turnover_rate'' = None"
    and "map_of (dict_get td ''gcx_stats'' []) ''avg_lifetime_minutes'' = None"
    and "map_of (dict_get td ''cardcash_stats'' []) ''turnover_rate'' = None"
    and "map_of (dict_get td ''cardcash_stats'' []) ''avg_lifetime_minutes'' = None"
  shows "avg_turnover td = Inr (PyFloat (Fin 0)) \<and>
         avg_lifetime td = Inr (PyFloat (Fin 120)) \<and>
         apply_rules s (PyFloat (Fin 0)) (PyFloat (Fin 120)) =
           (min (max_frequency s) (current_frequency s + 10), ''medium'', ''low turnover rate'') \<and>
         current_frequency (adjust_frequency s turnover_data w) =
           max (min_frequency s) (min (max_frequency s) (current_frequency s + 10))"
proof -
  have t: "avg_turnover td = Inr (PyFloat (Fin 0))"
    using assms(3,5) by (simp add: avg_turnover_def dict_get_def round_double_zero)
  have l: "avg_lifetime td = Inr (PyFloat (Fin 120))"
    using assms(4,6) by (simp add: avg_lifetime_def dict_get_def round_double_numeral)
  have r: "apply_rules s (PyFloat (Fin 0)) (PyFloat (Fin 120)) =
           (min (max_frequency s) (current_frequency s + 10), ''medium'', ''low turnover rate'')"
    by (simp add: apply_rules_def)
  have "current_frequency (adjust_frequency s turnover_data w) =
          max (min_frequency s)
            (min (max_frequency s) (min (max_frequency s) (current_frequency s + 10)))"
    using assms(1,2) by (simp add: adjust_frequency_eligible adjust_with_frequency [OF t l] r)
  with t l r show ?thesis by simp
qed

theorem empty_stats_low_turnover_rule_witness:
  "adjustment_threshold (initial_scraper 60 5) \<le> scrape_count (initial_scraper 60 5) \<and>
   obtain_turnover_data (Some empty_session_data) world0 = Some empty_session_data \<and>
   map_of (dict_get empty_session_data ''gcx_stats'' []) ''turnover_rate'' = None \<and>
   map_of (dict_get empty_session_data ''cardcash_stats'' []) ''avg_lifetime_minutes'' = None \<and>
   current_frequency
     (adjust_frequency (initial_scraper 60 5) (Some empty_session_data) world0) = 70"
proof -
  let ?td = "empty_session_data"
  note el = eligible5 [of 60]
  have ob: "obtain_turnover_data (Some ?td) world0 = Some ?td"
    by (simp add: obtain_turnover_data_def empty_session_data_def)
  have k1: "map_of (dict_get ?td ''gcx_stats'' []) ''turnover_rate'' = None"
    and k2: "map_of (dict_get ?td ''gcx_stats'' []) ''avg_lifetime_minutes'' = None"
    and k3: "map_of (dict_get ?td ''cardcash_stats'' []) ''turnover_rate'' = None"
    and k4: "map_of (dict_get ?td ''cardcash_stats'' []) ''avg_lifetime_minutes'' = None"
    by (simp_all add: empty_session_data_def dict_get_def)
  have v: "max (min_frequency (initial_scraper 60 5))
             (min (max_frequency (initial_scraper 60 5))
                (current_frequency (initial_scraper 60 5) + 10)) = 70"
    by (simp add: initial_scraper_def)
  from empty_stats_low_turnover_rule [OF el ob k1 k2 k3 k4] v el ob k1 k4 show ?thesis by simp
qed

section \<open>The adjustment history\<close>

lemma save_adjustment_history_keeps:
  "current_frequency (save_adjustment_history s w) = current_frequency s \<and>
   adjustments (adjustment_history (save_adjustment_history s w)) =
     adjustments (adjustment_history s) \<and>
   (stats (adjustment_history s) = Some st \<longrightarrow>
      (\<exists>st'. stats (adjustment_history (save_adjustment_history s w)) = Some st' \<and>
             increases st' = increases st \<and> decreases st' = decreases st \<and>
             total_adjustments st' = total_adjustments st))"
  by (cases "save w") (auto simp: save_adjustment_history_def split: option.splits)

text \<open>
  C8, as stated, fails: logging the adjustment from 60 to 70 minutes, a longer interval,
  leaves the \<^verbatim>\<open>increases\<close> counter at 0 and puts \<^verbatim>\<open>decreases\<close> at 1.
\<close>

theorem longer_interval_not_counted_as_increase:
  "counter increases (initial_scraper 70 5) = Some 0 \<and>
   counter increases
     (state_of (log_adjustment (initial_scraper 70 5) 60 70 ''low turnover rate'' ''medium''
        (uniform_data (PyInt 3) (PyInt 40)) world0)) = Some 0 \<and>
   counter decreases
     (state_of (log_adjustment (initial_scraper 70 5) 60 70 ''low turnover rate'' ''medium''
        (uniform_data (PyInt 3) (PyInt 40)) world0)) = Some 1"
  by (simp add: eval_defs counter_def uniform_data_def initial_scraper_def world0_def)

text \<open>
  C8, amended. The counters follow the rate of scraping, not the length of the interval:
  for every recorded adjustment, one whose new interval is shorter than the old one
  (scraping more often) increments \<^verbatim>\<open>increases\<close> and leaves \<^verbatim>\<open>decreases\<close>, and one whose
  new interval is longer (scraping less often) increments \<^verbatim>\<open>decreases\<close> and leaves
  \<^verbatim>\<open>increases\<close>.
\<close>

theorem counters_follow_scraping_rate:
  assumes "log_adjustment s old_freq new_freq rsn conf mtr w = Returned s'"
  shows "(new_freq < old_freq \<longrightarrow>
            (\<exists>i. counter increases s = Some i \<and> counter increases s' = Some (i + 1)) \<and>
            counter decreases s' = counter decreases s) \<and>
         (old_freq < new_freq \<longrightarrow>
            (\<exists>d. counter decreases s = Some d \<and> counter decreases s' = Some (d + 1)) \<and>
            counter increases s' = counter increases s)"
proof -
  from assms obtain adjs st t
    where ad: "adjustments (adjustment_history s) = Some adjs"
      and st: "stats (adjustment_history s) = Some st"
      and t: "total_adjustments st = Some t"
    by (auto simp: log_adjustment_def Let_def split: sum.splits option.splits if_splits)
  show ?thesis
  proof (cases "new_freq < old_freq")
    case True
    with assms ad st t obtain i s1
      where i: "increases st = Some i"
        and s': "s' = save_adjustment_history s1 w"
        and s1: "stats (adjustment_history s1) =
                   Some (st\<lparr>total_adjustments := Some (t + 1), increases := Some (i + 1)\<rparr>)"
      by (auto simp: log_adjustment_def Let_def split: sum.splits option.splits)
    from save_adjustment_history_keeps
           [of s1 w "st\<lparr>total_adjustments := Some (t + 1), increases := Some (i + 1)\<rparr>"] s1 s'
    obtain st'
      where "stats (adjustment_history s') = Some st'"
        and "increases st' = Some (i + 1)" and "decreases st' = decreases st"
      by auto
    with st i True show ?thesis by (auto simp: counter_def)
  next
    case False
    with assms ad st t obtain d s1
      where d: "decreases st = Some d"
        and s': "s' = save_adjustment_history s1 w"
        and s1: "stats (adjustment_history s1) =
                   Some (st\<lparr>total_adjustments := Some (t + 1), decreases := Some (d + 1)\<rparr>)"
      by (auto simp: log_adjustment_def Let_def split: sum.splits option.splits)
    from save_adjustment_history_keeps
           [of s1 w "st\<lparr>total_adjustments := Some (t + 1), decreases := Some (d + 1)\<rparr>"] s1 s'
    obtain st'
      where "stats (adjustment_history s') = Some st'"
        and "decreases st' = Some (d + 1)" and "increases st' = increases st"
      by auto
    with st d False show ?thesis by (auto simp: counter_def)
  qed
qed

lemma log_shorter:
  "log_adjustment (initial_scraper 15 5) 60 15 ''very high turnover rate'' ''high''
     (uniform_data (PyInt 60) (PyInt 40)) world0 =
   Returned (state_of (log_adjustment (initial_scraper 15 5) 60 15 ''very high turnover rate''
     ''high'' (uniform_data (PyInt 60) (PyInt 40)) world0))"
  by (simp add: eval_defs uniform_data_def initial_scraper_def world0_def)

lemma log_longer:
  "log_adjustment (initial_scraper 70 5) 60 70 ''low turnover rate'' ''medium''
     (uniform_data (PyInt 3) (PyInt 40)) world0 =
   Returned (state_of (log_adjustment (initial_scraper 70 5) 60 70 ''low turnover rate''
     ''medium'' (uniform_data (PyInt 3) (PyInt 40)) world0))"
  by (simp add: eval_defs uniform_data_def initial_scraper_def world0_def)

theorem counters_follow_scraping_rate_witness:
  "(15::int) < 60 \<and>
   (\<exists>i. counter increases (initial_scraper 15 5) = Some i \<and>
        counter increases
          (state_of (log_adjustment (initial_scraper 15 5) 60 15 ''very high turnover rate''
             ''high'' (uniform_data (PyInt 60) (PyInt 40)) world0)) = Some (i + 1)) \<and>
   (60::int) < 70 \<and>
   (\<exists>d. counter decreases (initial_scraper 70 5) = Some d \<and>
        counter decreases
          (state_of (log_adjustment (initial_scraper 70 5) 60 70 ''low turnover rate''
             ''medium'' (uniform_data (PyInt 3) (PyInt 40)) world0)) = Some (d + 1))"
proof -
  have a: "(15::int) < 60" and b: "(60::int) < 70" by simp_all
  from counters_follow_scraping_rate [OF log_shorter] counters_follow_scraping_rate [OF log_longer]
    a b
  show ?thesis by blast
qed

text \<open>
  C7, on the code. With the history that \<^verbatim>\<open>database_dashboard.py\<close> leaves in
  \<^verbatim>\<open>frequency_adjustments.json\<close>, an eligible call with low turnover changes the
  frequency from 60 to 70, and \<^verbatim>\<open>_log_adjustment\<close> raises \<^verbatim>\<open>KeyError\<close> at the append:
  the frequency has changed, no record has been appended, and \<^verbatim>\<open>last_adjustment_time\<close>
  is not set.
\<close>

theorem change_without_record:
  "current_frequency
     (adjust_frequency ((initial_scraper 60 5)\<lparr>adjustment_history := dashboard_history\<rparr>)
        (Some (uniform_data (PyInt 3) (PyInt 40))) world0) = 70 \<and>
   adjustment_history
     (adjust_frequency ((initial_scraper 60 5)\<lparr>adjustment_history := dashboard_history\<rparr>)
        (Some (uniform_data (PyInt 3) (PyInt 40))) world0) = dashboard_history \<and>
   adjustments dashboard_history = None \<and>
   last_adjustment_time
     (adjust_frequency ((initial_scraper 60 5)\<lparr>adjustment_history := dashboard_history\<rparr>)
        (Some (uniform_data (PyInt 3) (PyInt 40))) world0) = None"
  by (simp add: eval_defs uniform_data_def initial_scraper_def world0_def dashboard_history_def)

text \<open>
  With a history that holds its list of adjustments and its three counters, and metrics
  whose averages can be computed, a record with the old and the new frequency is appended
  exactly when the clamped frequency differs from the old one, an unchanged frequency
  leaves the history as it was, and the time of the adjustment is set in both cases.
\<close>

lemma log_adjustment_sound_history:
  assumes "adjustments (adjustment_history s) = Some adjs"
    and "stats (adjustment_history s) = Some st"
    and "total_adjustments st = Some t"
    and "increases st = Some i"
    and "decreases st = Some d"
    and "py_add (dict_get (dict_get mtr ''gcx_stats'' []) ''avg_lifetime_minutes'' (PyInt 0))
                (dict_get (dict_get mtr ''cardcash_stats'' []) ''avg_lifetime_minutes'' (PyInt 0))
           = Inr tot"
    and "py_truediv tot (PyInt 2) = Inr avg"
  shows "\<exists>s' r. log_adjustment s old_freq new_freq rsn conf mtr w = Returned s' \<and>
           adjustments (adjustment_history s') = Some (adjs @ [r]) \<and>
           old_frequency r = old_freq \<and> new_frequency r = new_freq \<and>
           reason r = rsn \<and> confidence r = conf \<and>
           counter total_adjustments s' = Some (t + 1)"
  using assms
  by (cases "save w"; cases "new_freq < old_freq")
     (simp_all add: log_adjustment_def save_adjustment_history_def counter_def Let_def)

lemma record_appended_iff_changed_sound_history:
  assumes "adjustment_threshold s \<le> scrape_count s"
    and "obtain_turnover_data turnover_data w = Some td"
    and "avg_turnover td = Inr avg_t" and "avg_lifetime td = Inr avg_l"
    and "adjustments (adjustment_history s) = Some adjs"
    and "stats (adjustment_history s) = Some st"
    and "total_adjustments st = Some t"
    and "increases st = Some i"
    and "decreases st = Some d"
    and "py_add (dict_get (dict_get td ''gcx_stats'' []) ''avg_lifetime_minutes'' (PyInt 0))
                (dict_get (dict_get td ''cardcash_stats'' []) ''avg_lifetime_minutes'' (PyInt 0))
           = Inr tot"
    and "py_truediv tot (PyInt 2) = Inr avg"
  shows "(current_frequency (adjust_frequency s turnover_data w) \<noteq> current_frequency s \<longrightarrow>
            (\<exists>r. adjustments (adjustment_history (adjust_frequency s turnover_data w)) =
                   Some (adjs @ [r]) \<and>
                 old_frequency r = current_frequency s \<and>
                 new_frequency r = current_frequency (adjust_frequency s turnover_data w))) \<and>
         (current_frequency (adjust_frequency s turnover_data w) = current_frequency s \<longrightarrow>
            adjustment_history (adjust_frequency s turnover_data w) = adjustment_history s) \<and>
         last_adjustment_time (adjust_frequency s turnover_data w) = Some (now w)"
proof -
  obtain f conf rsn where r: "apply_rules s avg_t avg_l = (f, conf, rsn)"
    by (cases "apply_rules s avg_t avg_l")
  define f' where "f' = max (min_frequency s) (min (max_frequency s) f)"
  have eq: "adjust_frequency s turnover_data w = adjust_with s td w"
    using assms(1,2) by (rule adjust_frequency_eligible)
  have fr: "current_frequency (adjust_with s td w) = f'"
    by (simp add: adjust_with_frequency [OF assms(3,4)] r f'_def)
  show ?thesis
  proof (cases "current_frequency s = f'")
    case True
    with assms(3,4) r have "adjust_with s td w = s\<lparr>last_adjustment_time := Some (now w)\<rparr>"
      by (simp add: adjust_with_def Let_def f'_def)
    with True show ?thesis by (simp add: eq)
  next
    case False
    let ?s1 = "s\<lparr>current_frequency := f'\<rparr>"
    from log_adjustment_sound_history
           [of ?s1 adjs st t i d td tot avg "current_frequency s" f' rsn conf w] assms(5-11)
    obtain s' rec
      where lg: "log_adjustment ?s1 (current_frequency s) f' rsn conf td w = Returned s'"
        and ad: "adjustments (adjustment_history s') = Some (adjs @ [rec])"
        and o: "old_frequency rec = current_frequency s" and n: "new_frequency rec = f'"
      by auto
    from False assms(3,4) r lg
    have "adjust_with s td w = s'\<lparr>last_adjustment_time := Some (now w)\<rparr>"
      by (simp add: adjust_with_def Let_def f'_def)
    with False fr ad o n show ?thesis by (simp add: eq)
  qed
qed

end
